theory Spec2Isabelle
  imports Complex_Main
begin

section \<open>Shared data model (types.ts)\<close>

text \<open>
  JavaScript numbers that hold coordinates, velocities and random draws are modelled as
  \<^typ>\<open>real\<close> (rounding of doubles is not modelled); the score and the clock
  (\<open>Date.now()\<close>, milliseconds) are \<^typ>\<open>int\<close>. Glyphs (emoji, Korean hints) are
  kept as their Unicode code points. Every call of \<open>Math.random()\<close> is an input of the
  function that makes it. Drawing on the canvas, the playback of the pronunciation and
  the particles themselves read the game state and never write the treats, the score,
  the mouth state, the quiz or the clock, so they are left out; of the particle bursts
  the state keeps the calls that create them.
\<close>

record Point =
  p_x :: real
  p_y :: real

datatype TreatType = cupcake | donut | cake | cookie | icecream | cherry

record Quiz =
  image :: "nat list"
  word :: string
  hint :: "nat list"
  category :: string

datatype error = TypeError

text \<open>\<open>xs[i]\<close> of JavaScript for an integer \<open>i\<close>: \<open>undefined\<close> out of range.\<close>

definition js_index :: "'a list \<Rightarrow> int \<Rightarrow> 'a option" where
  "js_index xs i = (if 0 \<le> i \<and> i < int (length xs) then Some (xs ! nat i) else None)"

text \<open>\<open>Math.sqrt(Math.pow(ax - bx, 2) + Math.pow(ay - by, 2))\<close>.\<close>

definition euclid :: "real \<Rightarrow> real \<Rightarrow> real \<Rightarrow> real \<Rightarrow> real" where
  "euclid ax ay bx by = sqrt ((ax - bx)\<^sup>2 + (ay - by)\<^sup>2)"

text \<open>The landmarks of the one detected face that a tick reads: upper and lower lip.\<close>

record Lips =
  topLip :: Point
  bottomLip :: Point

section \<open>The point variant: CakeMuncher (src/App.tsx)\<close>

record Treat =
  t_id :: string
  t_x :: real
  t_y :: real
  t_type :: TreatType
  t_active :: bool
  t_points :: int
  t_emoji :: nat
  t_scale :: real
  t_velocity :: real

definition cm_config_points :: "TreatType \<Rightarrow> int" where
  "cm_config_points ty =
     (case ty of cupcake \<Rightarrow> 100 | cookie \<Rightarrow> 150 | donut \<Rightarrow> 200
               | icecream \<Rightarrow> 300 | cake \<Rightarrow> 500 | cherry \<Rightarrow> 1000)"

definition config_emoji :: "TreatType \<Rightarrow> nat" where
  "config_emoji ty =
     (case ty of cupcake \<Rightarrow> 0x1F9C1 | cookie \<Rightarrow> 0x1F36A | donut \<Rightarrow> 0x1F369
               | icecream \<Rightarrow> 0x1F366 | cake \<Rightarrow> 0x1F370 | cherry \<Rightarrow> 0x1F352)"

definition MOUTH_OPEN_THRESHOLD :: real where
  "MOUTH_OPEN_THRESHOLD = 45 / 1000"

definition cm_types :: "TreatType list" where
  "cm_types = [cupcake, cookie, donut, icecream, cake, cherry]"

definition cm_weights :: "real list" where
  "cm_weights = [40, 30, 15, 8, 5, 2]"

text \<open>
  The loop of \<open>spawnTreat\<close> over \<open>i = 0 .. weights.length - 1\<close>, on the pairs
  \<open>(types[i], weights[i])\<close> still to visit: \<open>sum += weights[i]\<close>, and the first
  \<open>rand < sum\<close> sets the type and breaks. \<open>cum\<close> is \<open>sum\<close>, \<open>ty\<close> the value of \<open>type\<close> so far.
\<close>

fun weightLoop :: "(TreatType \<times> real) list \<Rightarrow> real \<Rightarrow> real \<Rightarrow> TreatType \<Rightarrow> TreatType" where
  "weightLoop [] rand cum ty = ty"
| "weightLoop ((t, w) # rest) rand cum ty =
     (if rand < cum + w then t else weightLoop rest rand (cum + w) ty)"

text \<open>\<open>rand\<close> is \<open>Math.random() * 100\<close>; \<open>type\<close> starts as \<open>'cupcake'\<close>.\<close>

definition cm_selectType :: "real \<Rightarrow> TreatType" where
  "cm_selectType rand = weightLoop (zip cm_types cm_weights) rand 0 cupcake"

text \<open>
  The results of the calls of \<open>Math.random()\<close> in one \<open>spawnTreat\<close>, in order. The
  identifier is the string \<open>Math.random().toString(36).substr(2, 9)\<close> of its draw.
\<close>

record cm_draws =
  cd_type :: real
  cd_id :: string
  cd_x :: real
  cd_velocity :: real

definition cm_spawnTreat :: "real \<Rightarrow> cm_draws \<Rightarrow> Treat list \<Rightarrow> Treat list" where
  "cm_spawnTreat width d treats =
     (let ty = cm_selectType (cd_type d * 100) in
      treats @ [\<lparr> t_id = cd_id d,
                  t_x = cd_x d * (width - 100) + 50,
                  t_y = - 50,
                  t_type = ty,
                  t_active = True,
                  t_points = cm_config_points ty,
                  t_emoji = config_emoji ty,
                  t_scale = 1,
                  t_velocity = 2 + cd_velocity d * 3 \<rparr>])"

definition cm_config_color :: "TreatType \<Rightarrow> string" where
  "cm_config_color ty =
     (case ty of cupcake \<Rightarrow> ''#ff80ab'' | cookie \<Rightarrow> ''#a1887f'' | donut \<Rightarrow> ''#f06292''
               | icecream \<Rightarrow> ''#81d4fa'' | cake \<Rightarrow> ''#ffd54f'' | cherry \<Rightarrow> ''#ef5350'')"

text \<open>
  One call of \<open>createCrumbs\<close> or \<open>createParticles\<close>: where, in which colour, how many
  particles. The state keeps the calls made so far, newest last; a call is made exactly
  where a treat is consumed.
\<close>

record Burst =
  b_x :: real
  b_y :: real
  b_color :: string
  b_count :: nat

text \<open>
  The state of the component. \<open>cm_seenAiThinking\<close> is the constant \<open>isAiThinking\<close> that
  \<open>handleAiAnalysis\<close> reads: \<open>onResults\<close> is registered inside an effect whose
  dependencies are \<open>[spawnTreat, multiplier]\<close>, so it calls the \<open>handleAiAnalysis\<close> of the
  render in which that effect ran, and no code calls \<open>setMultiplier\<close>. \<open>cm_requests\<close>
  counts the calls of \<open>getGourmetAdvice\<close> and \<open>cm_inFlight\<close> those not yet answered.
\<close>

record cm_state =
  cm_treats :: "Treat list"
  cm_bursts :: "Burst list"
  cm_scoreRef :: int
  cm_mouthPos :: Point
  cm_mouthOpenAmount :: real
  cm_isMouthOpen :: bool
  cm_lastCaptureTime :: int
  cm_isAiThinking :: bool
  cm_seenAiThinking :: bool
  cm_multiplier :: int
  cm_requests :: nat
  cm_inFlight :: nat

definition cm_init :: cm_state where
  "cm_init = \<lparr> cm_treats = [], cm_bursts = [], cm_scoreRef = 0,
               cm_mouthPos = \<lparr> p_x = 0, p_y = 0 \<rparr>,
               cm_mouthOpenAmount = 0, cm_isMouthOpen = False, cm_lastCaptureTime = 0,
               cm_isAiThinking = False, cm_seenAiThinking = False, cm_multiplier = 1,
               cm_requests = 0, cm_inFlight = 0 \<rparr>"

text \<open>
  What one call of \<open>onResults\<close> reads from outside: the size of the container
  (\<open>None\<close> when \<open>containerRef.current\<close> is null), the first face of
  \<open>results.multiFaceLandmarks\<close> (\<open>None\<close> when the field is missing or the list empty),
  the clock, and the random draws.
\<close>

record cm_frame =
  cf_clientWidth :: "real option"
  cf_clientHeight :: "real option"
  cf_face :: "Lips option"
  cf_spawn :: real
  cf_draws :: cm_draws
  cf_now :: int

text \<open>\<open>a || b\<close> on a number that may be undefined: \<open>b\<close> when \<open>a\<close> is undefined or 0.\<close>

definition or_default :: "real option \<Rightarrow> real \<Rightarrow> real" where
  "or_default a b = (case a of None \<Rightarrow> b | Some v \<Rightarrow> if v = 0 then b else v)"

definition cm_track :: "real \<Rightarrow> real \<Rightarrow> Lips option \<Rightarrow> cm_state \<Rightarrow> cm_state" where
  "cm_track width height face s =
     (case face of
        None \<Rightarrow> s
      | Some l \<Rightarrow>
          (let cx = (p_x (topLip l) + p_x (bottomLip l)) / 2 * width;
               cy = (p_y (topLip l) + p_y (bottomLip l)) / 2 * height;
               dist = euclid (p_x (topLip l)) (p_y (topLip l)) (p_x (bottomLip l)) (p_y (bottomLip l))
           in s\<lparr> cm_mouthPos := \<lparr> p_x = cx, p_y = cy \<rparr>,
                  cm_mouthOpenAmount := dist,
                  cm_isMouthOpen := (dist > MOUTH_OPEN_THRESHOLD) \<rparr>))"

text \<open>
  One iteration of the treat loop on the treat \<open>t\<close>: the treat that stays at its index
  (\<open>None\<close> when spliced out) and the state afterwards. The loop reads the mouth from the
  state and writes the score and the bursts.
\<close>

definition cm_stepTreat :: "real \<Rightarrow> Treat \<Rightarrow> cm_state \<Rightarrow> Treat option \<times> cm_state" where
  "cm_stepTreat height t s =
     (if \<not> t_active t then (None, s)
      else let t1 = t\<lparr> t_y := t_y t + t_velocity t \<rparr> in
        if t_y t1 > height + 50 then (Some (t1\<lparr> t_active := False \<rparr>), s)
        else if cm_isMouthOpen s \<and>
                euclid (t_x t1) (t_y t1) (p_x (cm_mouthPos s)) (p_y (cm_mouthPos s)) < 60
          then (Some (t1\<lparr> t_active := False \<rparr>),
                s\<lparr> cm_scoreRef := cm_scoreRef s + t_points t1 * cm_multiplier s,
                   cm_bursts := cm_bursts s @
                     [\<lparr> b_x = t_x t1, b_y = t_y t1,
                        b_color = cm_config_color (t_type t1), b_count = 12 \<rparr>] \<rparr>)
          else (Some t1, s))"

text \<open>
  \<open>for (let i = treats.length - 1; i >= 0; i--)\<close>: the last treat is visited first, and a
  splice at \<open>i\<close> leaves the treats below \<open>i\<close> where they are.
\<close>

fun cm_treatLoop :: "real \<Rightarrow> Treat list \<Rightarrow> cm_state \<Rightarrow> Treat list \<times> cm_state" where
  "cm_treatLoop height [] s = ([], s)"
| "cm_treatLoop height (t # ts) s =
     (case cm_treatLoop height ts s of
        (ts', s') \<Rightarrow>
          (case cm_stepTreat height t s' of
             (None, s'') \<Rightarrow> (ts', s'')
           | (Some t', s'') \<Rightarrow> (t' # ts', s'')))"

text \<open>
  \<open>handleAiAnalysis\<close>: it returns at once when the \<open>isAiThinking\<close> it reads is true or no
  treat is active, and otherwise sets the state \<open>isAiThinking\<close> and calls the advice
  service.
\<close>

definition cm_handleAiAnalysis :: "cm_state \<Rightarrow> cm_state" where
  "cm_handleAiAnalysis s =
     (if cm_seenAiThinking s \<or> length (filter t_active (cm_treats s)) = 0 then s
      else s\<lparr> cm_isAiThinking := True,
              cm_requests := Suc (cm_requests s),
              cm_inFlight := Suc (cm_inFlight s) \<rparr>)"

text \<open>
  The part of \<open>onResults\<close> after the spawn: the treat loop, then the advice trigger,
  which stamps the time and calls \<open>handleAiAnalysis\<close> when more than 5000 ms have passed.
\<close>

definition cm_afterSpawn :: "real \<Rightarrow> int \<Rightarrow> cm_state \<Rightarrow> cm_state" where
  "cm_afterSpawn height now s2 =
     (let (ts, s3) = cm_treatLoop height (cm_treats s2) s2;
          s4 = s3\<lparr> cm_treats := ts \<rparr>
      in if now - cm_lastCaptureTime s4 > 5000
         then cm_handleAiAnalysis (s4\<lparr> cm_lastCaptureTime := now \<rparr>)
         else s4)"

definition cm_onResults :: "cm_state \<Rightarrow> cm_frame \<Rightarrow> cm_state" where
  "cm_onResults s f =
     (let width = or_default (cf_clientWidth f) 800;
          height = or_default (cf_clientHeight f) 600;
          s1 = cm_track width height (cf_face f) s
      in if cf_spawn f < 2 / 100
         then cm_afterSpawn height (cf_now f)
                (s1\<lparr> cm_treats := cm_spawnTreat width (cf_draws f) (cm_treats s1) \<rparr>)
         else cm_afterSpawn height (cf_now f) s1)"

text \<open>The answer of the advice service arrives: \<open>setIsAiThinking(false)\<close>.\<close>

definition cm_adviceDone :: "cm_state \<Rightarrow> cm_state" where
  "cm_adviceDone s = s\<lparr> cm_isAiThinking := False, cm_inFlight := cm_inFlight s - 1 \<rparr>"

datatype cm_event = CmFrame cm_frame | CmAdvice

fun cm_step :: "cm_state \<Rightarrow> cm_event \<Rightarrow> cm_state" where
  "cm_step s (CmFrame f) = cm_onResults s f"
| "cm_step s CmAdvice = cm_adviceDone s"

definition cm_run :: "cm_event list \<Rightarrow> cm_state" where
  "cm_run evs = foldl cm_step cm_init evs"

section \<open>The word variant on MediaPipe: WordMuncher (src/unnamed/part_000)\<close>

definition QUIZ_LIST :: "Quiz list" where
  "QUIZ_LIST =
     [\<lparr> image = [0x1F34E], word = ''Apple'', hint = [0xC0AC, 0xACFC], category = ''Fruits'' \<rparr>,
      \<lparr> image = [0x1F34C], word = ''Banana'', hint = [0xBC14, 0xB098, 0xB098], category = ''Fruits'' \<rparr>,
      \<lparr> image = [0x1F436], word = ''Dog'', hint = [0xAC15, 0xC544, 0xC9C0], category = ''Animals'' \<rparr>,
      \<lparr> image = [0x1F431], word = ''Cat'', hint = [0xACE0, 0xC591, 0xC774], category = ''Animals'' \<rparr>,
      \<lparr> image = [0x1F697], word = ''Car'', hint = [0xC790, 0xB3D9, 0xCC28], category = ''Transport'' \<rparr>,
      \<lparr> image = [0x1F31E], word = ''Sun'', hint = [0xD0DC, 0xC591], category = ''Nature'' \<rparr>,
      \<lparr> image = [0x1F4DA], word = ''Book'', hint = [0xCC45], category = ''Objects'' \<rparr>,
      \<lparr> image = [0x26BD], word = ''Ball'', hint = [0xACF5], category = ''Sports'' \<rparr>]"

record WordTreat =
  wt_id :: string
  wt_x :: real
  wt_y :: real
  wt_type :: "TreatType option"
  wt_word :: string
  wt_isCorrect :: bool
  wt_active :: bool
  wt_velocity :: real

definition wm_types :: "TreatType list" where
  "wm_types = [cupcake, cookie, donut, icecream, cake]"

text \<open>
  The draws of one \<open>spawnTreat\<close>, in order; \<open>wd_word\<close> is drawn only for an incorrect
  treat. \<open>wt_type\<close> is \<open>None\<close> for \<open>undefined\<close>, which \<open>types[...]\<close> gives out of range.
\<close>

record wm_draws =
  wd_type :: real
  wd_correct :: real
  wd_word :: real
  wd_id :: string
  wd_x :: real
  wd_velocity :: real

text \<open>\<open>otherQuizzes[...].word\<close> throws a TypeError when the element is undefined.\<close>

definition wm_spawnTreat :: "real \<Rightarrow> string \<Rightarrow> wm_draws \<Rightarrow> WordTreat list \<Rightarrow> error + WordTreat list" where
  "wm_spawnTreat width correctWord d treats =
     (let ty = js_index wm_types \<lfloor>wd_type d * real (length wm_types)\<rfloor>;
          isCorrect = (wd_correct d < 3 / 10);
          w = (if isCorrect then Inr correctWord
               else let otherQuizzes = filter (\<lambda>q. word q \<noteq> correctWord) QUIZ_LIST in
                 case js_index otherQuizzes \<lfloor>wd_word d * real (length otherQuizzes)\<rfloor> of
                   None \<Rightarrow> Inl TypeError
                 | Some q \<Rightarrow> Inr (word q))
      in case w of
           Inl e \<Rightarrow> Inl e
         | Inr wd \<Rightarrow>
             Inr (treats @ [\<lparr> wt_id = wd_id d,
                               wt_x = wd_x d * (width - 150) + 75,
                               wt_y = - 50,
                               wt_type = ty,
                               wt_word = wd,
                               wt_isCorrect = isCorrect,
                               wt_active = True,
                               wt_velocity = 15 / 10 + wd_velocity d * 2 \<rparr>]))"

text \<open>
  \<open>wm_timers\<close> holds the pending \<open>setTimeout(nextQuiz, 500)\<close> calls, oldest first (equal
  delays fire in the order they were set), each with the \<open>currentQuiz\<close> that its
  \<open>nextQuiz\<close> closure captured. \<open>wm_requests\<close> counts the calls of
  \<open>getStudyBuddyAdvice\<close> and \<open>wm_inFlight\<close> those not yet answered.
\<close>

record wm_state =
  wm_treats :: "WordTreat list"
  wm_bursts :: "Burst list"
  wm_scoreRef :: int
  wm_mouthPos :: Point
  wm_isMouthOpen :: bool
  wm_lastCaptureTime :: int
  wm_currentQuiz :: Quiz
  wm_isAiThinking :: bool
  wm_timers :: "Quiz list"
  wm_requests :: nat
  wm_inFlight :: nat

definition wm_init :: wm_state where
  "wm_init = \<lparr> wm_treats = [], wm_bursts = [], wm_scoreRef = 0,
               wm_mouthPos = \<lparr> p_x = 0, p_y = 0 \<rparr>, wm_isMouthOpen = False,
               wm_lastCaptureTime = 0, wm_currentQuiz = QUIZ_LIST ! 0,
               wm_isAiThinking = False, wm_timers = [], wm_requests = 0, wm_inFlight = 0 \<rparr>"

record wm_frame =
  wf_width :: real
  wf_height :: real
  wf_face :: "Lips option"
  wf_spawn :: real
  wf_draws :: wm_draws
  wf_now :: int

definition wm_track :: "real \<Rightarrow> real \<Rightarrow> Lips option \<Rightarrow> wm_state \<Rightarrow> wm_state" where
  "wm_track width height face s =
     (case face of
        None \<Rightarrow> s
      | Some l \<Rightarrow>
          (let cx = (1 - (p_x (topLip l) + p_x (bottomLip l)) / 2) * width;
               cy = (p_y (topLip l) + p_y (bottomLip l)) / 2 * height;
               dist = euclid (p_x (topLip l)) (p_y (topLip l)) (p_x (bottomLip l)) (p_y (bottomLip l))
           in s\<lparr> wm_mouthPos := \<lparr> p_x = cx, p_y = cy \<rparr>,
                  wm_isMouthOpen := (dist > MOUTH_OPEN_THRESHOLD) \<rparr>))"

definition wm_stepTreat :: "real \<Rightarrow> WordTreat \<Rightarrow> wm_state \<Rightarrow> WordTreat option \<times> wm_state" where
  "wm_stepTreat height t s =
     (if \<not> wt_active t then (None, s)
      else let t1 = t\<lparr> wt_y := wt_y t + wt_velocity t \<rparr> in
        if wt_y t1 > height + 50 then (Some (t1\<lparr> wt_active := False \<rparr>), s)
        else if wm_isMouthOpen s \<and>
                euclid (wt_x t1) (wt_y t1) (p_x (wm_mouthPos s)) (p_y (wm_mouthPos s)) < 70
          then (Some (t1\<lparr> wt_active := False \<rparr>),
                if wt_isCorrect t1
                then s\<lparr> wm_scoreRef := wm_scoreRef s + 100,
                        wm_bursts := wm_bursts s @
                          [\<lparr> b_x = wt_x t1, b_y = wt_y t1, b_color = ''#4ade80'', b_count = 20 \<rparr>],
                        wm_timers := wm_timers s @ [wm_currentQuiz s] \<rparr>
                else s\<lparr> wm_scoreRef := max 0 (wm_scoreRef s - 50),
                        wm_bursts := wm_bursts s @
                          [\<lparr> b_x = wt_x t1, b_y = wt_y t1, b_color = ''#f87171'', b_count = 10 \<rparr>] \<rparr>)
          else (Some t1, s))"

fun wm_treatLoop :: "real \<Rightarrow> WordTreat list \<Rightarrow> wm_state \<Rightarrow> WordTreat list \<times> wm_state" where
  "wm_treatLoop height [] s = ([], s)"
| "wm_treatLoop height (t # ts) s =
     (case wm_treatLoop height ts s of
        (ts', s') \<Rightarrow>
          (case wm_stepTreat height t s' of
             (None, s'') \<Rightarrow> (ts', s'')
           | (Some t', s'') \<Rightarrow> (t' # ts', s'')))"

text \<open>
  The part of \<open>onResults\<close> after the spawn: the treat loop, then the advice request,
  which is sent whenever more than 7000 ms have passed since the last one was sent.
\<close>

definition wm_afterSpawn :: "wm_frame \<Rightarrow> wm_state \<Rightarrow> wm_state" where
  "wm_afterSpawn f s2 =
     (let (ts, s3) = wm_treatLoop (wf_height f) (wm_treats s2) s2;
          s4 = s3\<lparr> wm_treats := ts \<rparr>
      in if wf_now f - wm_lastCaptureTime s4 > 7000
         then s4\<lparr> wm_lastCaptureTime := wf_now f,
                  wm_isAiThinking := True,
                  wm_requests := Suc (wm_requests s4),
                  wm_inFlight := Suc (wm_inFlight s4) \<rparr>
         else s4)"

text \<open>
  \<open>onResults\<close>: the state it leaves, and the exception it throws, if any. The only
  throw is the one of \<open>spawnTreat\<close>, after the mouth state has been written.
\<close>

definition wm_onResults :: "wm_state \<Rightarrow> wm_frame \<Rightarrow> wm_state \<times> error option" where
  "wm_onResults s f =
     (let s1 = wm_track (wf_width f) (wf_height f) (wf_face f) s in
      if wf_spawn f < 15 / 1000
      then (case wm_spawnTreat (wf_width f) (word (wm_currentQuiz s1)) (wf_draws f) (wm_treats s1) of
              Inl e \<Rightarrow> (s1, Some e)
            | Inr ts \<Rightarrow> (wm_afterSpawn f (s1\<lparr> wm_treats := ts \<rparr>), None))
      else (wm_afterSpawn f s1, None))"

text \<open>\<open>Array.prototype.indexOf\<close>: the first index of the value, \<open>-1\<close> when absent.\<close>

fun indexOf :: "'a list \<Rightarrow> 'a \<Rightarrow> int" where
  "indexOf [] v = - 1"
| "indexOf (x # xs) v =
     (if x = v then 0 else (let i = indexOf xs v in if i < 0 then - 1 else i + 1))"

text \<open>
  \<open>nextQuiz\<close> with the \<open>currentQuiz\<close> of its closure. The quiz objects of \<open>QUIZ_LIST\<close>
  differ pairwise in their fields and \<open>currentQuiz\<close> is always one of them, so the
  identity that \<open>indexOf\<close> compares is equality of the records.
\<close>

definition wm_nextQuiz :: "Quiz \<Rightarrow> wm_state \<Rightarrow> wm_state" where
  "wm_nextQuiz captured s =
     (let nextIndex = (indexOf QUIZ_LIST captured + 1) mod int (length QUIZ_LIST)
      in s\<lparr> wm_currentQuiz := QUIZ_LIST ! nat nextIndex, wm_treats := [] \<rparr>)"

definition wm_adviceDone :: "wm_state \<Rightarrow> wm_state" where
  "wm_adviceDone s = s\<lparr> wm_isAiThinking := False, wm_inFlight := wm_inFlight s - 1 \<rparr>"

text \<open>
  What can happen to the component: a camera frame, the oldest pending timer firing
  (nothing when none is pending), an answer of the advice service.
\<close>

datatype wm_event = WmFrame wm_frame | WmTimer | WmAdvice

fun wm_step :: "wm_state \<Rightarrow> wm_event \<Rightarrow> wm_state" where
  "wm_step s (WmFrame f) = fst (wm_onResults s f)"
| "wm_step s WmTimer =
     (case wm_timers s of
        [] \<Rightarrow> s
      | q # rest \<Rightarrow> wm_nextQuiz q (s\<lparr> wm_timers := rest \<rparr>))"
| "wm_step s WmAdvice = wm_adviceDone s"

definition wm_run :: "wm_event list \<Rightarrow> wm_state" where
  "wm_run evs = foldl wm_step wm_init evs"

section \<open>The word variant on face-api: WordMuncher (src/unnamed/part_001)\<close>

record FallingWord =
  fw_id :: string
  fw_x :: real
  fw_y :: real
  fw_word :: string
  fw_emoji :: "nat option"
  fw_isCorrect :: bool
  fw_velocity :: real

definition TREAT_TYPES :: "TreatType list" where
  "TREAT_TYPES = [cupcake, cookie, donut, icecream, cake]"

definition fa_MOUTH_OPEN_THRESHOLD :: real where
  "fa_MOUTH_OPEN_THRESHOLD = 6 / 100"

text \<open>
  The draws of one \<open>spawnWord\<close>, in order; \<open>fd_word\<close> is drawn only for an incorrect
  word. The identifier is \<open>Math.random().toString(36).slice(2)\<close>.
\<close>

record fa_draws =
  fd_type :: real
  fd_correct :: real
  fd_word :: real
  fd_id :: string
  fd_x :: real
  fd_velocity :: real

text \<open>
  \<open>fa_timers\<close> counts the pending \<open>setTimeout\<close> callbacks that advance the quiz; they
  read and write refs only, so they are all alike. \<open>fa_faceDetected\<close> and
  \<open>fa_mouthOpen\<close> are the React states shown in the status line.
\<close>

record fa_state =
  fa_wordsRef :: "FallingWord list"
  fa_bursts :: "Burst list"
  fa_scoreRef :: int
  fa_mouthPosRef :: Point
  fa_isMouthOpenRef :: bool
  fa_lastSpawnRef :: int
  fa_quizIndexRef :: int
  fa_runningRef :: bool
  fa_faceDetected :: bool
  fa_mouthOpen :: bool
  fa_timers :: nat

definition fa_init :: fa_state where
  "fa_init = \<lparr> fa_wordsRef = [], fa_bursts = [], fa_scoreRef = 0,
               fa_mouthPosRef = \<lparr> p_x = 0, p_y = 0 \<rparr>, fa_isMouthOpenRef = False,
               fa_lastSpawnRef = 0, fa_quizIndexRef = 0, fa_runningRef = True,
               fa_faceDetected = False, fa_mouthOpen = False, fa_timers = 0 \<rparr>"

text \<open>
  \<open>spawnWord\<close>: \<open>quiz.word\<close> throws when \<open>QUIZ_LIST[quizIndexRef.current]\<close> is
  undefined, and so does \<open>.word\<close> on an undefined element of the filtered list, which
  is indexed below \<open>QUIZ_LIST.length - 1\<close> whatever its own length.
\<close>

definition fa_spawnWord :: "real \<Rightarrow> fa_draws \<Rightarrow> fa_state \<Rightarrow> error + fa_state" where
  "fa_spawnWord width d s =
     (let ty = js_index TREAT_TYPES \<lfloor>fd_type d * real (length TREAT_TYPES)\<rfloor> in
      case js_index QUIZ_LIST (fa_quizIndexRef s) of
        None \<Rightarrow> Inl TypeError
      | Some quiz \<Rightarrow>
          (let isCorrect = (fd_correct d < 35 / 100);
               w = (if isCorrect then Inr (word quiz)
                    else case js_index (filter (\<lambda>q. word q \<noteq> word quiz) QUIZ_LIST)
                                \<lfloor>fd_word d * real (length QUIZ_LIST - 1)\<rfloor> of
                           None \<Rightarrow> Inl TypeError
                         | Some q \<Rightarrow> Inr (word q))
           in case w of
                Inl e \<Rightarrow> Inl e
              | Inr wd \<Rightarrow>
                  Inr (s\<lparr> fa_wordsRef := fa_wordsRef s @
                            [\<lparr> fw_id = fd_id d,
                               fw_x = 100 + fd_x d * (width - 200),
                               fw_y = - 60,
                               fw_word = wd,
                               fw_emoji = map_option config_emoji ty,
                               fw_isCorrect = isCorrect,
                               fw_velocity = 2 + fd_velocity d * 2 \<rparr>] \<rparr>)))"

text \<open>
  What \<open>faceapi.detectSingleFace(...).withFaceLandmarks(true)\<close> gives: it throws, it
  finds no face, or it finds one, of which \<open>detectFace\<close> reads the landmarks 62 and 66 and
  the height of the box.
\<close>

record Detection =
  upperLip :: Point
  lowerLip :: Point
  faceHeight :: real

datatype fa_detection = Threw | NoFace | Found Detection

record fa_detect =
  fx_readyState :: int
  fx_detection :: fa_detection
  fx_canvasWidth :: real
  fx_canvasHeight :: real
  fx_videoWidth :: real
  fx_videoHeight :: real

text \<open>
  \<open>detectFace\<close>. A division by 0 gives an infinity or NaN in JavaScript: for the ratio
  of the lips that is written out (\<open>Infinity > 0.06\<close>, \<open>NaN > 0.06\<close> is false); the video
  has its metadata, hence a size other than 0, before the first call.
\<close>

definition fa_detectFace :: "fa_state \<Rightarrow> fa_detect \<Rightarrow> fa_state" where
  "fa_detectFace s i =
     (if \<not> fa_runningRef s \<or> fx_readyState i < 2 then s
      else case fx_detection i of
        Threw \<Rightarrow> s
      | NoFace \<Rightarrow> s\<lparr> fa_faceDetected := False \<rparr>
      | Found d \<Rightarrow>
          (let scaleX = fx_canvasWidth i / fx_videoWidth i;
               scaleY = fx_canvasHeight i / fx_videoHeight i;
               mouthX = fx_canvasWidth i - ((p_x (upperLip d) + p_x (lowerLip d)) / 2) * scaleX;
               mouthY = ((p_y (upperLip d) + p_y (lowerLip d)) / 2) * scaleY;
               lipDist = \<bar>p_y (lowerLip d) - p_y (upperLip d)\<bar>;
               isOpen = (if faceHeight d = 0 then lipDist > 0
                         else lipDist / faceHeight d > fa_MOUTH_OPEN_THRESHOLD)
           in s\<lparr> fa_faceDetected := True,
                  fa_mouthPosRef := \<lparr> p_x = mouthX, p_y = mouthY \<rparr>,
                  fa_isMouthOpenRef := isOpen,
                  fa_mouthOpen := isOpen \<rparr>))"

text \<open>
  One iteration of the loop over the falling words: whether the word stays, and the
  state afterwards. \<open>mouth\<close> is the \<open>mouthPosRef.current\<close> read at the start of
  \<open>gameLoop\<close>.
\<close>

definition fa_stepWord :: "real \<Rightarrow> Point \<Rightarrow> FallingWord \<Rightarrow> fa_state \<Rightarrow> FallingWord option \<times> fa_state" where
  "fa_stepWord height mouth w s =
     (let w1 = w\<lparr> fw_y := fw_y w + fw_velocity w \<rparr> in
      if fw_y w1 > height + 60 then (None, s)
      else let dx = fw_x w1 - p_x mouth; dy = fw_y w1 - p_y mouth;
               dist = sqrt (dx * dx + dy * dy) in
        if fa_isMouthOpenRef s \<and> dist < 70
        then (None,
              if fw_isCorrect w1
              then s\<lparr> fa_scoreRef := fa_scoreRef s + 100,
                      fa_bursts := fa_bursts s @
                        [\<lparr> b_x = fw_x w1, b_y = fw_y w1, b_color = ''#4ade80'', b_count = 15 \<rparr>],
                      fa_timers := Suc (fa_timers s) \<rparr>
              else s\<lparr> fa_scoreRef := max 0 (fa_scoreRef s - 50),
                      fa_bursts := fa_bursts s @
                        [\<lparr> b_x = fw_x w1, b_y = fw_y w1, b_color = ''#f87171'', b_count = 15 \<rparr>] \<rparr>)
        else (Some w1, s))"

fun fa_wordLoop :: "real \<Rightarrow> Point \<Rightarrow> FallingWord list \<Rightarrow> fa_state \<Rightarrow> FallingWord list \<times> fa_state" where
  "fa_wordLoop height mouth [] s = ([], s)"
| "fa_wordLoop height mouth (w # ws) s =
     (case fa_wordLoop height mouth ws s of
        (ws', s') \<Rightarrow>
          (case fa_stepWord height mouth w s' of
             (None, s'') \<Rightarrow> (ws', s'')
           | (Some w', s'') \<Rightarrow> (w' # ws', s'')))"

record fa_tick =
  fg_width :: real
  fg_height :: real
  fg_now :: int
  fg_draws :: fa_draws

definition fa_afterSpawn :: "fa_tick \<Rightarrow> fa_state \<Rightarrow> fa_state" where
  "fa_afterSpawn g s2 =
     (let (ws, s3) = fa_wordLoop (fg_height g) (fa_mouthPosRef s2) (fa_wordsRef s2) s2
      in s3\<lparr> fa_wordsRef := ws \<rparr>)"

text \<open>
  \<open>gameLoop\<close>: the state it leaves, and the exception it throws, if any (the one of
  \<open>spawnWord\<close>, after \<open>lastSpawnRef\<close> has been written).
\<close>

definition fa_gameLoop :: "fa_state \<Rightarrow> fa_tick \<Rightarrow> fa_state \<times> error option" where
  "fa_gameLoop s g =
     (if \<not> fa_runningRef s then (s, None)
      else if fg_now g - fa_lastSpawnRef s > 1500
      then (let s1 = s\<lparr> fa_lastSpawnRef := fg_now g \<rparr> in
            case fa_spawnWord (fg_width g) (fg_draws g) s1 of
              Inl e \<Rightarrow> (s1, Some e)
            | Inr s2 \<Rightarrow> (fa_afterSpawn g s2, None))
      else (fa_afterSpawn g s, None))"

text \<open>The callback set by \<open>setTimeout(..., 300)\<close> when a correct word is eaten.\<close>

definition fa_advance :: "fa_state \<Rightarrow> fa_state" where
  "fa_advance s =
     s\<lparr> fa_quizIndexRef := (fa_quizIndexRef s + 1) mod int (length QUIZ_LIST),
        fa_wordsRef := [] \<rparr>"

datatype fa_event = FaLoop fa_tick | FaDetect fa_detect | FaTimer

fun fa_step :: "fa_state \<Rightarrow> fa_event \<Rightarrow> fa_state" where
  "fa_step s (FaLoop g) = fst (fa_gameLoop s g)"
| "fa_step s (FaDetect i) = fa_detectFace s i"
| "fa_step s FaTimer =
     (if fa_timers s = 0 then s else fa_advance (s\<lparr> fa_timers := fa_timers s - 1 \<rparr>))"

definition fa_run :: "fa_event list \<Rightarrow> fa_state" where
  "fa_run evs = foldl fa_step fa_init evs"

section \<open>The specification's wording of the category choice\<close>

text \<open>
  The category that the specification describes: cumulative sums of the weights, and the
  first category, in order, whose cumulative weight exceeds the draw.
\<close>

fun cumulative :: "real \<Rightarrow> real list \<Rightarrow> real list" where
  "cumulative acc [] = []"
| "cumulative acc (w # ws) = (acc + w) # cumulative (acc + w) ws"

definition first_exceeding :: "real \<Rightarrow> TreatType option" where
  "first_exceeding r =
     map_option fst (find (\<lambda>(t, c). r < c) (zip cm_types (cumulative 0 cm_weights)))"

section \<open>Invariants of the runs\<close>

text \<open>
  The point variant: the score and the multiplier are not negative, and no treat in the
  store carries negative points.
\<close>

definition cm_inv :: "cm_state \<Rightarrow> bool" where
  "cm_inv s \<longleftrightarrow>
     0 \<le> cm_scoreRef s \<and> 0 \<le> cm_multiplier s \<and> (\<forall>t \<in> set (cm_treats s). 0 \<le> t_points t)"


definition fa_labelled :: "fa_state \<Rightarrow> bool" where
  "fa_labelled s \<longleftrightarrow>
     0 \<le> fa_quizIndexRef s \<and> fa_quizIndexRef s < 8 \<and>
     (\<forall>w \<in> set (fa_wordsRef s).
        fw_isCorrect w = (fw_word w = word (QUIZ_LIST ! nat (fa_quizIndexRef s))))"




section \<open>Concrete inputs used below\<close>

text \<open>
  A treat of the MediaPipe word variant at the lower margin of a viewport of height 600,
  and a frame that shows open lips near the lower edge and spawns nothing.
\<close>

definition ex1_treat :: WordTreat where
  "ex1_treat = \<lparr> wt_id = ''k2j8x0q1z'', wt_x = 100, wt_y = 650, wt_type = Some cupcake,
                 wt_word = ''Apple'', wt_isCorrect = True, wt_active = True, wt_velocity = 2 \<rparr>"

definition ex1_frame :: wm_frame where
  "ex1_frame = \<lparr> wf_width = 200, wf_height = 600,
                  wf_face = Some \<lparr> topLip = \<lparr> p_x = 1 / 2, p_y = 95 / 100 \<rparr>,
                                    bottomLip = \<lparr> p_x = 1 / 2, p_y = 1 \<rparr> \<rparr>,
                  wf_spawn = 1 / 2,
                  wf_draws = \<lparr> wd_type = 0, wd_correct = 0, wd_word = 0, wd_id = ''a'',
                               wd_x = 0, wd_velocity = 0 \<rparr>,
                  wf_now = 0 \<rparr>"

text \<open>
  A treat that comes within 10 px of the mouth at (100, 300): from (100, 288) it moves
  to (100, 290).
\<close>

definition ex1_near :: WordTreat where
  "ex1_near = \<lparr> wt_id = ''m4n5b6v7c'', wt_x = 100, wt_y = 288, wt_type = Some donut,
                wt_word = ''Apple'', wt_isCorrect = True, wt_active = True, wt_velocity = 2 \<rparr>"

definition ex1_closed :: wm_state where
  "ex1_closed = wm_init\<lparr> wm_mouthPos := \<lparr> p_x = 100, p_y = 300 \<rparr> \<rparr>"

definition ex1_open :: wm_state where
  "ex1_open = ex1_closed\<lparr> wm_isMouthOpen := True \<rparr>"

definition ex1_cm_treat :: Treat where
  "ex1_cm_treat = \<lparr> t_id = ''q1w2e3r4t'', t_x = 6, t_y = 4, t_type = cake, t_active = True,
                    t_points = 500, t_emoji = 0x1F370, t_scale = 1, t_velocity = 2 \<rparr>"

definition ex1_fa_word :: FallingWord where
  "ex1_fa_word = \<lparr> fw_id = ''z9y8x7w6v5u'', fw_x = 6, fw_y = 4, fw_word = ''Dog'',
                   fw_emoji = Some 0x1F369, fw_isCorrect = False, fw_velocity = 2 \<rparr>"







definition ex3_lost :: wm_frame where
  "ex3_lost = \<lparr> wf_width = 200, wf_height = 600, wf_face = None, wf_spawn = 1 / 100,
                 wf_draws = \<lparr> wd_type = 0, wd_correct = 1 / 10, wd_word = 0,
                              wd_id = ''x7k2m9p4q'', wd_x = 1 / 2, wd_velocity = 1 / 4 \<rparr>,
                 wf_now = 0 \<rparr>"



definition ex4_cm_first :: cm_frame where
  "ex4_cm_first = \<lparr> cf_clientWidth = Some 200, cf_clientHeight = Some 600, cf_face = None,
                     cf_spawn = 1 / 100,
                     cf_draws = \<lparr> cd_type = 1 / 2, cd_id = ''r5t6y7u8i'', cd_x = 1 / 2,
                                  cd_velocity = 0 \<rparr>,
                     cf_now = 6000 \<rparr>"

definition ex4_cm_second :: cm_frame where
  "ex4_cm_second = ex4_cm_first\<lparr> cf_spawn := 1 / 2, cf_now := 12000 \<rparr>"

definition ex4_cm_spawned :: Treat where
  "ex4_cm_spawned = \<lparr> t_id = ''r5t6y7u8i'', t_x = 100, t_y = - 48, t_type = cookie,
                       t_active = True, t_points = 150, t_emoji = 0x1F36A, t_scale = 1,
                       t_velocity = 2 \<rparr>"



definition ex5_fa_draws :: fa_draws where
  "ex5_fa_draws = \<lparr> fd_type = 0, fd_correct = 1 / 10, fd_word = 0, fd_id = ''e5r6t7y8u9i'',
                     fd_x = 1 / 2, fd_velocity = 1 / 2 \<rparr>"

definition ex5_fa_word :: FallingWord where
  "ex5_fa_word = \<lparr> fw_id = ''e5r6t7y8u9i'', fw_x = 200, fw_y = - 60, fw_word = ''Apple'',
                    fw_emoji = Some 0x1F9C1, fw_isCorrect = True, fw_velocity = 3 \<rparr>"

text \<open>A frame that spawns like \<open>ex3_lost\<close>, with another identifier.\<close>

definition ex8_fresh :: wm_frame where
  "ex8_fresh = ex3_lost\<lparr> wf_draws := (wf_draws ex3_lost)\<lparr> wd_id := ''f0g1h2j3k'' \<rparr> \<rparr>"

definition ex8_cm_fresh :: cm_frame where
  "ex8_cm_fresh = ex4_cm_first\<lparr> cf_draws := (cf_draws ex4_cm_first)\<lparr> cd_id := ''l4k5j6h7g'' \<rparr>,
                               cf_now := 7000 \<rparr>"

text \<open>
  Ticks of the face-api game loop on a canvas of 400 by 600: at time 2000 it spawns the
  correct word, at time 4000 a second one with another identifier.
\<close>

definition ex5_tick :: fa_tick where
  "ex5_tick = \<lparr> fg_width = 400, fg_height = 600, fg_now = 2000, fg_draws = ex5_fa_draws \<rparr>"

definition ex8_fa_fresh :: fa_tick where
  "ex8_fa_fresh = ex5_tick\<lparr> fg_now := 4000, fg_draws := ex5_fa_draws\<lparr> fd_id := ''w2e3r4t5y6u'' \<rparr> \<rparr>"

section \<open>Category selection\<close>

lemma cumulative_weights: "cumulative 0 cm_weights = [40, 70, 85, 93, 98, 100]"
  by (simp add: cm_weights_def)

lemma weightLoop_find:
  "length ts = length ws \<Longrightarrow>
   weightLoop (zip ts ws) r acc d =
     (case find (\<lambda>(t, c). r < c) (zip ts (cumulative acc ws)) of
        None \<Rightarrow> d | Some (t, c) \<Rightarrow> t)"
proof (induction ws arbitrary: ts acc)
  case Nil
  then show ?case by simp
next
  case (Cons w ws)
  then obtain t ts' where ts: "ts = t # ts'" and len: "length ts' = length ws"
    by (cases ts) auto
  show ?case
    using Cons.IH [OF len, of "acc + w"] by (simp add: ts)
qed

text \<open>
  C9. The weights are 40, 30, 15, 8, 5, 2 and sum to 100; for every draw value
  \<open>r\<close> with \<open>0 \<le> r < 100\<close> the category chosen by \<open>spawnTreat\<close> is the first
  category, in order, whose cumulative weight exceeds \<open>r\<close>.
\<close>

theorem C9_category_selection:
  "cm_weights = [40, 30, 15, 8, 5, 2] \<and> sum_list cm_weights = 100 \<and>
   (\<forall>r. 0 \<le> r \<and> r < 100 \<longrightarrow> first_exceeding r = Some (cm_selectType r))"
proof (intro conjI allI impI)
  show "cm_weights = [40, 30, 15, 8, 5, 2]" by (simp add: cm_weights_def)
  show "sum_list cm_weights = 100" by (simp add: cm_weights_def)
next
  fix r :: real
  assume r: "0 \<le> r \<and> r < 100"
  have len: "length cm_types = length cm_weights"
    by (simp add: cm_types_def cm_weights_def)
  have "cm_selectType r =
          (case find (\<lambda>(t, c). r < c) (zip cm_types (cumulative 0 cm_weights)) of
             None \<Rightarrow> cupcake | Some (t, c) \<Rightarrow> t)"
    unfolding cm_selectType_def by (rule weightLoop_find [OF len])
  moreover have "find (\<lambda>(t, c). r < c) (zip cm_types (cumulative 0 cm_weights)) \<noteq> None"
    using r by (simp add: cumulative_weights cm_types_def)
  ultimately show "first_exceeding r = Some (cm_selectType r)"
    by (auto simp: first_exceeding_def split: option.splits)
qed

theorem C9_category_selection_witness:
  "(0::real) \<le> 72 \<and> (72::real) < 100 \<and> first_exceeding 72 = Some donut \<and> cm_selectType 72 = donut"
proof -
  have "first_exceeding 72 = Some (cm_selectType 72)"
    using C9_category_selection by simp
  moreover have "cm_selectType 72 = donut"
    by (simp add: cm_selectType_def cm_types_def cm_weights_def)
  ultimately show ?thesis by simp
qed

section \<open>Distances\<close>

lemma sqrt_less_iff: "0 < r \<Longrightarrow> sqrt v < r \<longleftrightarrow> v < r\<^sup>2"
  by (metis real_sqrt_less_iff real_sqrt_abs abs_of_pos)

lemma euclid_less_iff:
  "0 < r \<Longrightarrow> euclid a b c d < r \<longleftrightarrow> (a - c)\<^sup>2 + (b - d)\<^sup>2 < r\<^sup>2"
  by (simp add: euclid_def sqrt_less_iff)

section \<open>The collision test\<close>

text \<open>
  A collision fires in an iteration exactly when that iteration calls \<open>createCrumbs\<close> or
  \<open>createParticles\<close>, that is, when the bursts of the state change.
\<close>

lemma cm_stepTreat_fires:
  "cm_bursts (snd (cm_stepTreat h t s)) \<noteq> cm_bursts s \<longleftrightarrow>
     (t_active t \<and> t_y t + t_velocity t \<le> h + 50 \<and> cm_isMouthOpen s \<and>
      euclid (t_x t) (t_y t + t_velocity t) (p_x (cm_mouthPos s)) (p_y (cm_mouthPos s)) < 60)"
  by (simp add: cm_stepTreat_def Let_def not_less)

lemma wm_stepTreat_fires:
  "wm_bursts (snd (wm_stepTreat h t s)) \<noteq> wm_bursts s \<longleftrightarrow>
     (wt_active t \<and> wt_y t + wt_velocity t \<le> h + 50 \<and> wm_isMouthOpen s \<and>
      euclid (wt_x t) (wt_y t + wt_velocity t) (p_x (wm_mouthPos s)) (p_y (wm_mouthPos s)) < 70)"
  by (simp add: wm_stepTreat_def Let_def not_less)

lemma fa_stepWord_fires:
  "fa_bursts (snd (fa_stepWord h m w s)) \<noteq> fa_bursts s \<longleftrightarrow>
     (fw_y w + fw_velocity w \<le> h + 60 \<and> fa_isMouthOpenRef s \<and>
      euclid (fw_x w) (fw_y w + fw_velocity w) (p_x m) (p_y m) < 70)"
  by (simp add: fa_stepWord_def Let_def euclid_def power2_eq_square not_less)

lemma cm_stepTreat_closed: "\<not> cm_isMouthOpen s \<Longrightarrow> snd (cm_stepTreat h t s) = s"
  by (simp add: cm_stepTreat_def Let_def)

lemma wm_stepTreat_closed: "\<not> wm_isMouthOpen s \<Longrightarrow> snd (wm_stepTreat h t s) = s"
  by (simp add: wm_stepTreat_def Let_def)

lemma fa_stepWord_closed: "\<not> fa_isMouthOpenRef s \<Longrightarrow> snd (fa_stepWord h m w s) = s"
  by (simp add: fa_stepWord_def Let_def)

lemma ex1_track:
  "wm_track 200 600 (wf_face ex1_frame) (wm_init\<lparr> wm_treats := [ex1_treat] \<rparr>) =
     wm_init\<lparr> wm_treats := [ex1_treat], wm_mouthPos := \<lparr> p_x = 100, p_y = 585 \<rparr>,
              wm_isMouthOpen := True \<rparr>"
proof -
  have "sqrt ((95 / 100 - 1)\<^sup>2) = \<bar>95 / 100 - (1::real)\<bar>"
    by (rule real_sqrt_abs)
  then show ?thesis
    by (simp add: wm_track_def ex1_frame_def Let_def euclid_def MOUTH_OPEN_THRESHOLD_def
        wm_init_def)
qed

text \<open>
  C1, as stated, fails: a treat that has fallen below the margin is deactivated before the
  collision test. The word variant, viewport 200 by 600: the lips at (0.5, 0.95) and
  (0.5, 1.0) are open and put the mouth at (100, 585); the active treat at (100, 650)
  with velocity 2 moves to (100, 652), at distance 67 from the mouth (65 before the
  move), below 70. The tick deactivates it and consumes nothing: no burst, score 0.
\<close>

theorem C1_counterexample:
  "wm_isMouthOpen (fst (wm_onResults (wm_init\<lparr> wm_treats := [ex1_treat] \<rparr>) ex1_frame)) \<and>
   wm_mouthPos (fst (wm_onResults (wm_init\<lparr> wm_treats := [ex1_treat] \<rparr>) ex1_frame))
     = \<lparr> p_x = 100, p_y = 585 \<rparr> \<and>
   euclid 100 650 100 585 < 70 \<and> euclid 100 652 100 585 < 70 \<and>
   wm_treats (fst (wm_onResults (wm_init\<lparr> wm_treats := [ex1_treat] \<rparr>) ex1_frame))
     = [ex1_treat\<lparr> wt_y := 652, wt_active := False \<rparr>] \<and>
   wm_bursts (fst (wm_onResults (wm_init\<lparr> wm_treats := [ex1_treat] \<rparr>) ex1_frame)) = [] \<and>
   wm_scoreRef (fst (wm_onResults (wm_init\<lparr> wm_treats := [ex1_treat] \<rparr>) ex1_frame)) = 0"
proof -
  have step: "wm_stepTreat 600 ex1_treat
                (wm_init\<lparr> wm_treats := [ex1_treat], wm_mouthPos := \<lparr> p_x = 100, p_y = 585 \<rparr>,
                         wm_isMouthOpen := True \<rparr>)
              = (Some (ex1_treat\<lparr> wt_y := 652, wt_active := False \<rparr>),
                 wm_init\<lparr> wm_treats := [ex1_treat], wm_mouthPos := \<lparr> p_x = 100, p_y = 585 \<rparr>,
                          wm_isMouthOpen := True \<rparr>)"
    by (simp add: wm_stepTreat_def ex1_treat_def Let_def)
  have res: "fst (wm_onResults (wm_init\<lparr> wm_treats := [ex1_treat] \<rparr>) ex1_frame) =
          wm_init\<lparr> wm_treats := [ex1_treat\<lparr> wt_y := 652, wt_active := False \<rparr>],
                   wm_mouthPos := \<lparr> p_x = 100, p_y = 585 \<rparr>, wm_isMouthOpen := True \<rparr>"
    using ex1_track step
    by (simp add: wm_onResults_def wm_afterSpawn_def ex1_frame_def wm_init_def)
  show ?thesis
    by (simp add: res euclid_less_iff) (simp add: wm_init_def)
qed

text \<open>
  C1, amended. In each variant, an iteration of the treat loop consumes its treat exactly
  when the treat is active (the MediaPipe variants keep a flag), has not fallen below the
  viewport height plus the margin after its move, the mouth is open, and the distance
  between the moved treat and the mouth is below the capture radius: 60 in the point
  variant, 70 in the two word variants. With the mouth closed an iteration leaves the
  score and the bursts as they are, whatever the distance.
\<close>

theorem C1_collision_test:
  "(cm_bursts (snd (cm_stepTreat h t s)) \<noteq> cm_bursts s \<longleftrightarrow>
      (t_active t \<and> t_y t + t_velocity t \<le> h + 50 \<and> cm_isMouthOpen s \<and>
       euclid (t_x t) (t_y t + t_velocity t) (p_x (cm_mouthPos s)) (p_y (cm_mouthPos s)) < 60)) \<and>
   (wm_bursts (snd (wm_stepTreat h' t' s')) \<noteq> wm_bursts s' \<longleftrightarrow>
      (wt_active t' \<and> wt_y t' + wt_velocity t' \<le> h' + 50 \<and> wm_isMouthOpen s' \<and>
       euclid (wt_x t') (wt_y t' + wt_velocity t') (p_x (wm_mouthPos s')) (p_y (wm_mouthPos s')) < 70)) \<and>
   (fa_bursts (snd (fa_stepWord h'' m w s'')) \<noteq> fa_bursts s'' \<longleftrightarrow>
      (fw_y w + fw_velocity w \<le> h'' + 60 \<and> fa_isMouthOpenRef s'' \<and>
       euclid (fw_x w) (fw_y w + fw_velocity w) (p_x m) (p_y m) < 70)) \<and>
   (\<not> cm_isMouthOpen s \<longrightarrow> snd (cm_stepTreat h t s) = s) \<and>
   (\<not> wm_isMouthOpen s' \<longrightarrow> snd (wm_stepTreat h' t' s') = s') \<and>
   (\<not> fa_isMouthOpenRef s'' \<longrightarrow> snd (fa_stepWord h'' m w s'') = s'')"
  using cm_stepTreat_fires [of h t s] wm_stepTreat_fires [of h' t' s']
    fa_stepWord_fires [of h'' m w s''] cm_stepTreat_closed [of s h t]
    wm_stepTreat_closed [of s' h' t'] fa_stepWord_closed [of s'' h'' m w]
  by blast

theorem C1_collision_test_witness:
  "\<not> cm_isMouthOpen cm_init \<and> euclid 6 6 0 0 < 60 \<and>
     snd (cm_stepTreat 600 ex1_cm_treat cm_init) = cm_init \<and>
   \<not> wm_isMouthOpen ex1_closed \<and> euclid 100 290 100 300 < 70 \<and>
     snd (wm_stepTreat 600 ex1_near ex1_closed) = ex1_closed \<and>
   \<not> fa_isMouthOpenRef fa_init \<and> euclid 6 6 0 0 < 70 \<and>
     snd (fa_stepWord 600 \<lparr> p_x = 0, p_y = 0 \<rparr> ex1_fa_word fa_init) = fa_init \<and>
   wm_isMouthOpen ex1_open \<and> euclid 100 231 100 300 < 70 \<and>
     wm_bursts (snd (wm_stepTreat 600 (ex1_near\<lparr> wt_y := 229 \<rparr>) ex1_open)) \<noteq> wm_bursts ex1_open"
proof -
  have closed: "\<not> cm_isMouthOpen cm_init" "\<not> wm_isMouthOpen ex1_closed"
    "\<not> fa_isMouthOpenRef fa_init"
    by (simp_all add: cm_init_def ex1_closed_def wm_init_def fa_init_def)
  have near: "euclid 6 6 0 0 < 60" "euclid 100 290 100 300 < 70" "euclid 6 6 0 0 < 70"
    "euclid 100 231 100 300 < 70"
    by (simp_all add: euclid_less_iff)
  have hit: "wt_active (ex1_near\<lparr> wt_y := 229 \<rparr>) \<and>
      wt_y (ex1_near\<lparr> wt_y := 229 \<rparr>) + wt_velocity (ex1_near\<lparr> wt_y := 229 \<rparr>) \<le> 600 + 50 \<and>
      wm_isMouthOpen ex1_open \<and>
      euclid (wt_x (ex1_near\<lparr> wt_y := 229 \<rparr>))
        (wt_y (ex1_near\<lparr> wt_y := 229 \<rparr>) + wt_velocity (ex1_near\<lparr> wt_y := 229 \<rparr>))
        (p_x (wm_mouthPos ex1_open)) (p_y (wm_mouthPos ex1_open)) < 70"
    using near by (simp add: ex1_near_def ex1_open_def ex1_closed_def wm_init_def)
  from C1_collision_test [of 600 ex1_cm_treat cm_init 600 ex1_near ex1_closed 600
      "\<lparr> p_x = 0, p_y = 0 \<rparr>" ex1_fa_word fa_init] closed
  have a: "snd (cm_stepTreat 600 ex1_cm_treat cm_init) = cm_init"
    "snd (wm_stepTreat 600 ex1_near ex1_closed) = ex1_closed"
    "snd (fa_stepWord 600 \<lparr> p_x = 0, p_y = 0 \<rparr> ex1_fa_word fa_init) = fa_init"
    by blast+
  from C1_collision_test [of 600 ex1_cm_treat cm_init 600 "ex1_near\<lparr> wt_y := 229 \<rparr>" ex1_open
      600 "\<lparr> p_x = 0, p_y = 0 \<rparr>" ex1_fa_word fa_init] hit
  have b: "wm_bursts (snd (wm_stepTreat 600 (ex1_near\<lparr> wt_y := 229 \<rparr>) ex1_open)) \<noteq> wm_bursts ex1_open"
    by blast
  show ?thesis using closed near a b hit by blast
qed

section \<open>The treat loops\<close>

text \<open>Unfolding one iteration; the last treat of the list is visited first.\<close>

lemma cm_treatLoop_Cons:
  "cm_treatLoop h ts s = (r1, s1) \<Longrightarrow> cm_stepTreat h t s1 = (r2, s2) \<Longrightarrow>
   cm_treatLoop h (t # ts) s = ((case r2 of None \<Rightarrow> r1 | Some t' \<Rightarrow> t' # r1), s2)"
  by (simp split: option.splits)

lemma wm_treatLoop_Cons:
  "wm_treatLoop h ts s = (r1, s1) \<Longrightarrow> wm_stepTreat h t s1 = (r2, s2) \<Longrightarrow>
   wm_treatLoop h (t # ts) s = ((case r2 of None \<Rightarrow> r1 | Some t' \<Rightarrow> t' # r1), s2)"
  by (simp split: option.splits)

lemma fa_wordLoop_Cons:
  "fa_wordLoop h m ws s = (r1, s1) \<Longrightarrow> fa_stepWord h m w s1 = (r2, s2) \<Longrightarrow>
   fa_wordLoop h m (w # ws) s = ((case r2 of None \<Rightarrow> r1 | Some w' \<Rightarrow> w' # r1), s2)"
  by (simp split: option.splits)

text \<open>What the loops leave alone.\<close>

lemma cm_stepTreat_frame:
  "cm_stepTreat h t s = (r, s') \<Longrightarrow>
     cm_isMouthOpen s' = cm_isMouthOpen s \<and> cm_mouthPos s' = cm_mouthPos s \<and>
     cm_multiplier s' = cm_multiplier s \<and> cm_lastCaptureTime s' = cm_lastCaptureTime s \<and>
     cm_isAiThinking s' = cm_isAiThinking s \<and> cm_seenAiThinking s' = cm_seenAiThinking s \<and>
     cm_requests s' = cm_requests s \<and> cm_inFlight s' = cm_inFlight s \<and>
     cm_treats s' = cm_treats s \<and> cm_mouthOpenAmount s' = cm_mouthOpenAmount s"
  by (auto simp: cm_stepTreat_def Let_def split: if_splits)

lemma cm_treatLoop_frame:
  "cm_treatLoop h ts s = (r, s') \<Longrightarrow>
     cm_isMouthOpen s' = cm_isMouthOpen s \<and> cm_mouthPos s' = cm_mouthPos s \<and>
     cm_multiplier s' = cm_multiplier s \<and> cm_lastCaptureTime s' = cm_lastCaptureTime s \<and>
     cm_isAiThinking s' = cm_isAiThinking s \<and> cm_seenAiThinking s' = cm_seenAiThinking s \<and>
     cm_requests s' = cm_requests s \<and> cm_inFlight s' = cm_inFlight s \<and>
     cm_treats s' = cm_treats s \<and> cm_mouthOpenAmount s' = cm_mouthOpenAmount s"
proof (induction ts arbitrary: r s')
  case Nil
  then show ?case by simp
next
  case (Cons t ts)
  obtain r1 s1 where l: "cm_treatLoop h ts s = (r1, s1)" by force
  obtain r2 s2 where st: "cm_stepTreat h t s1 = (r2, s2)" by force
  have "s' = s2" using Cons.prems cm_treatLoop_Cons [OF l st] by simp
  then show ?case using Cons.IH [OF l] cm_stepTreat_frame [OF st] by simp
qed



lemma fa_stepWord_frame:
  "fa_stepWord h m w s = (r, s') \<Longrightarrow>
     fa_isMouthOpenRef s' = fa_isMouthOpenRef s \<and> fa_mouthPosRef s' = fa_mouthPosRef s \<and>
     fa_quizIndexRef s' = fa_quizIndexRef s \<and> fa_lastSpawnRef s' = fa_lastSpawnRef s \<and>
     fa_runningRef s' = fa_runningRef s \<and> fa_faceDetected s' = fa_faceDetected s \<and>
     fa_mouthOpen s' = fa_mouthOpen s \<and> fa_wordsRef s' = fa_wordsRef s"
  by (auto simp: fa_stepWord_def Let_def split: if_splits)

lemma fa_wordLoop_frame:
  "fa_wordLoop h m ws s = (r, s') \<Longrightarrow>
     fa_isMouthOpenRef s' = fa_isMouthOpenRef s \<and> fa_mouthPosRef s' = fa_mouthPosRef s \<and>
     fa_quizIndexRef s' = fa_quizIndexRef s \<and> fa_lastSpawnRef s' = fa_lastSpawnRef s \<and>
     fa_runningRef s' = fa_runningRef s \<and> fa_faceDetected s' = fa_faceDetected s \<and>
     fa_mouthOpen s' = fa_mouthOpen s \<and> fa_wordsRef s' = fa_wordsRef s"
proof (induction ws arbitrary: r s')
  case Nil
  then show ?case by simp
next
  case (Cons w ws)
  obtain r1 s1 where l: "fa_wordLoop h m ws s = (r1, s1)" by force
  obtain r2 s2 where st: "fa_stepWord h m w s1 = (r2, s2)" by force
  have "s' = s2" using Cons.prems fa_wordLoop_Cons [OF l st] by simp
  then show ?case using Cons.IH [OF l] fa_stepWord_frame [OF st] by simp
qed

text \<open>Runs: the last event is applied to the state that the earlier events reach.\<close>

lemma cm_run_snoc: "cm_run (evs @ [e]) = cm_step (cm_run evs) e"
  by (simp add: cm_run_def)

lemma wm_run_snoc: "wm_run (evs @ [e]) = wm_step (wm_run evs) e"
  by (simp add: wm_run_def)

lemma fa_run_snoc: "fa_run (evs @ [e]) = fa_step (fa_run evs) e"
  by (simp add: fa_run_def)

section \<open>The score\<close>

lemma wm_stepTreat_score:
  "0 \<le> wm_scoreRef s \<Longrightarrow> 0 \<le> wm_scoreRef (snd (wm_stepTreat h t s))"
  by (simp add: wm_stepTreat_def Let_def)

lemma wm_treatLoop_score:
  "0 \<le> wm_scoreRef s \<Longrightarrow> 0 \<le> wm_scoreRef (snd (wm_treatLoop h ts s))"
proof (induction ts)
  case Nil
  then show ?case by simp
next
  case (Cons t ts)
  obtain r1 s1 where l: "wm_treatLoop h ts s = (r1, s1)" by force
  obtain r2 s2 where st: "wm_stepTreat h t s1 = (r2, s2)" by force
  have "0 \<le> wm_scoreRef s1" using Cons l by simp
  then have "0 \<le> wm_scoreRef s2" using wm_stepTreat_score [of s1 h t] st by simp
  then show ?case using wm_treatLoop_Cons [OF l st] by simp
qed

lemma wm_track_score: "wm_scoreRef (wm_track w h face s) = wm_scoreRef s"
  by (simp add: wm_track_def Let_def split: option.splits)

lemma wm_afterSpawn_score:
  assumes "0 \<le> wm_scoreRef s"
  shows "0 \<le> wm_scoreRef (wm_afterSpawn f s)"
proof -
  obtain ts s3 where l: "wm_treatLoop (wf_height f) (wm_treats s) s = (ts, s3)" by force
  have "0 \<le> wm_scoreRef s3" using wm_treatLoop_score [OF assms, of "wf_height f" "wm_treats s"] l
    by simp
  then show ?thesis by (simp add: wm_afterSpawn_def l Let_def)
qed

lemma wm_onResults_score:
  assumes "0 \<le> wm_scoreRef s"
  shows "0 \<le> wm_scoreRef (fst (wm_onResults s f))"
proof -
  let ?s1 = "wm_track (wf_width f) (wf_height f) (wf_face f) s"
  have s1: "0 \<le> wm_scoreRef ?s1" using assms by (simp add: wm_track_score)
  have "\<And>ts. 0 \<le> wm_scoreRef (wm_afterSpawn f (?s1\<lparr> wm_treats := ts \<rparr>))"
    by (rule wm_afterSpawn_score) (simp add: s1)
  moreover have "0 \<le> wm_scoreRef (wm_afterSpawn f ?s1)"
    by (rule wm_afterSpawn_score) (rule s1)
  ultimately show ?thesis
    using s1 by (simp add: wm_onResults_def Let_def split: sum.splits)
qed

lemma wm_step_score: "0 \<le> wm_scoreRef s \<Longrightarrow> 0 \<le> wm_scoreRef (wm_step s e)"
  by (cases e)
    (simp_all add: wm_onResults_score wm_nextQuiz_def wm_adviceDone_def Let_def split: list.splits)

lemma wm_run_score: "0 \<le> wm_scoreRef (wm_run evs)"
proof (induction evs rule: rev_induct)
  case Nil
  show ?case by (simp add: wm_run_def wm_init_def)
next
  case (snoc e evs)
  then show ?case by (simp add: wm_run_snoc wm_step_score)
qed

lemma fa_stepWord_score:
  "0 \<le> fa_scoreRef s \<Longrightarrow> 0 \<le> fa_scoreRef (snd (fa_stepWord h m w s))"
  by (simp add: fa_stepWord_def Let_def)

lemma fa_wordLoop_score:
  "0 \<le> fa_scoreRef s \<Longrightarrow> 0 \<le> fa_scoreRef (snd (fa_wordLoop h m ws s))"
proof (induction ws)
  case Nil
  then show ?case by simp
next
  case (Cons w ws)
  obtain r1 s1 where l: "fa_wordLoop h m ws s = (r1, s1)" by force
  obtain r2 s2 where st: "fa_stepWord h m w s1 = (r2, s2)" by force
  have "0 \<le> fa_scoreRef s1" using Cons l by simp
  then have "0 \<le> fa_scoreRef s2" using fa_stepWord_score [of s1 h m w] st by simp
  then show ?case using fa_wordLoop_Cons [OF l st] by simp
qed

lemma fa_afterSpawn_score:
  assumes "0 \<le> fa_scoreRef s"
  shows "0 \<le> fa_scoreRef (fa_afterSpawn g s)"
proof -
  obtain ws s3 where l: "fa_wordLoop (fg_height g) (fa_mouthPosRef s) (fa_wordsRef s) s = (ws, s3)"
    by force
  have "0 \<le> fa_scoreRef s3"
    using fa_wordLoop_score [OF assms, of "fg_height g" "fa_mouthPosRef s" "fa_wordsRef s"] l
    by simp
  then show ?thesis by (simp add: fa_afterSpawn_def l)
qed

lemma fa_spawnWord_score: "fa_spawnWord w d s = Inr s' \<Longrightarrow> fa_scoreRef s' = fa_scoreRef s"
  by (auto simp: fa_spawnWord_def Let_def split: option.splits if_splits)

lemma fa_gameLoop_score:
  assumes "0 \<le> fa_scoreRef s"
  shows "0 \<le> fa_scoreRef (fst (fa_gameLoop s g))"
proof -
  let ?s1 = "s\<lparr> fa_lastSpawnRef := fg_now g \<rparr>"
  have "\<And>s2. fa_spawnWord (fg_width g) (fg_draws g) ?s1 = Inr s2 \<Longrightarrow>
          0 \<le> fa_scoreRef (fa_afterSpawn g s2)"
    using assms by (intro fa_afterSpawn_score) (simp add: fa_spawnWord_score)
  then show ?thesis
    using assms fa_afterSpawn_score [OF assms, of g]
    by (simp add: fa_gameLoop_def Let_def split: sum.splits)
qed

lemma fa_step_score: "0 \<le> fa_scoreRef s \<Longrightarrow> 0 \<le> fa_scoreRef (fa_step s e)"
  by (cases e)
    (simp_all add: fa_gameLoop_score fa_detectFace_def fa_advance_def Let_def
      split: fa_detection.splits)

lemma fa_run_score: "0 \<le> fa_scoreRef (fa_run evs)"
proof (induction evs rule: rev_induct)
  case Nil
  show ?case by (simp add: fa_run_def fa_init_def)
next
  case (snoc e evs)
  then show ?case by (simp add: fa_run_snoc fa_step_score)
qed

lemma cm_stepTreat_points:
  assumes "0 \<le> t_points t" "0 \<le> cm_multiplier s" "0 \<le> cm_scoreRef s"
  shows "0 \<le> cm_scoreRef (snd (cm_stepTreat h t s)) \<and>
         (\<forall>t'. fst (cm_stepTreat h t s) = Some t' \<longrightarrow> 0 \<le> t_points t')"
  using assms by (auto simp: cm_stepTreat_def Let_def)

lemma cm_treatLoop_points:
  assumes "\<forall>t \<in> set ts. 0 \<le> t_points t" "0 \<le> cm_multiplier s" "0 \<le> cm_scoreRef s"
  shows "0 \<le> cm_scoreRef (snd (cm_treatLoop h ts s)) \<and>
         (\<forall>t \<in> set (fst (cm_treatLoop h ts s)). 0 \<le> t_points t)"
  using assms(1)
proof (induction ts)
  case Nil
  then show ?case using assms(3) by simp
next
  case (Cons t ts)
  obtain r1 s1 where l: "cm_treatLoop h ts s = (r1, s1)" by force
  obtain r2 s2 where st: "cm_stepTreat h t s1 = (r2, s2)" by force
  have ih: "0 \<le> cm_scoreRef s1" "\<forall>t \<in> set r1. 0 \<le> t_points t"
    using Cons l by simp_all
  have m: "0 \<le> cm_multiplier s1" using cm_treatLoop_frame [OF l] assms(2) by simp
  have "0 \<le> t_points t" using Cons.prems by simp
  from cm_stepTreat_points [OF this m ih(1), of h]
  have "0 \<le> cm_scoreRef s2" "\<And>t'. r2 = Some t' \<Longrightarrow> 0 \<le> t_points t'"
    using st by simp_all
  then show ?case using cm_treatLoop_Cons [OF l st] ih(2) by (cases r2) simp_all
qed

lemma cm_afterSpawn_inv:
  assumes "cm_inv s"
  shows "cm_inv (cm_afterSpawn h now s)"
proof -
  obtain ts s3 where l: "cm_treatLoop h (cm_treats s) s = (ts, s3)" by force
  have "0 \<le> cm_scoreRef s3 \<and> (\<forall>t \<in> set ts. 0 \<le> t_points t)"
    using cm_treatLoop_points [of "cm_treats s" s h] assms l by (simp add: cm_inv_def)
  moreover have "cm_multiplier s3 = cm_multiplier s" using cm_treatLoop_frame [OF l] by simp
  ultimately have "cm_inv (s3\<lparr> cm_treats := ts \<rparr>)" using assms by (simp add: cm_inv_def)
  then show ?thesis
    by (simp add: cm_afterSpawn_def l Let_def cm_handleAiAnalysis_def cm_inv_def)
qed

lemma cm_onResults_inv:
  assumes "cm_inv s"
  shows "cm_inv (cm_onResults s f)"
proof -
  define s1 where "s1 = cm_track (or_default (cf_clientWidth f) 800)
      (or_default (cf_clientHeight f) 600) (cf_face f) s"
  have i1: "cm_inv s1"
    using assms by (simp add: s1_def cm_track_def cm_inv_def Let_def split: option.splits)
  have pts: "0 \<le> cm_config_points ty" for ty
    by (cases ty) (simp_all add: cm_config_points_def)
  have i2: "cm_inv (s1\<lparr> cm_treats := cm_spawnTreat w d (cm_treats s1) \<rparr>)" for w d
    using i1 pts by (auto simp: cm_inv_def cm_spawnTreat_def Let_def)
  show ?thesis
    using i1 i2 by (simp add: cm_onResults_def Let_def s1_def [symmetric] cm_afterSpawn_inv)
qed

lemma cm_run_inv: "cm_inv (cm_run evs)"
proof (induction evs rule: rev_induct)
  case Nil
  show ?case by (simp add: cm_run_def cm_init_def cm_inv_def)
next
  case (snoc e evs)
  show ?case
  proof (cases e)
    case (CmFrame f)
    then show ?thesis using snoc by (simp add: cm_run_snoc cm_onResults_inv)
  next
    case CmAdvice
    then show ?thesis using snoc by (simp add: cm_run_snoc cm_adviceDone_def cm_inv_def)
  qed
qed

text \<open>
  C2. The score is never negative. In both word variants every sequence of frames, timers
  and answers, started from the initial state with score 0, leaves a score of at least 0,
  and so does every run of the point variant, which has no penalty. An iteration that
  consumes an incorrect treat sets the score to \<open>max 0 (score - 50)\<close>, one that consumes a
  correct treat adds 100, and any other iteration leaves the score as it is.
\<close>

theorem C2_score_never_negative:
  "0 \<le> wm_scoreRef (wm_run evs) \<and> 0 \<le> fa_scoreRef (fa_run evs') \<and>
   0 \<le> cm_scoreRef (cm_run evs'') \<and>
   wm_scoreRef (snd (wm_stepTreat h t s)) =
     (if wm_bursts (snd (wm_stepTreat h t s)) = wm_bursts s then wm_scoreRef s
      else if wt_isCorrect t then wm_scoreRef s + 100
      else max 0 (wm_scoreRef s - 50)) \<and>
   fa_scoreRef (snd (fa_stepWord h' m w s')) =
     (if fa_bursts (snd (fa_stepWord h' m w s')) = fa_bursts s' then fa_scoreRef s'
      else if fw_isCorrect w then fa_scoreRef s' + 100
      else max 0 (fa_scoreRef s' - 50))"
proof (intro conjI)
  show "0 \<le> wm_scoreRef (wm_run evs)" by (rule wm_run_score)
  show "0 \<le> fa_scoreRef (fa_run evs')" by (rule fa_run_score)
  show "0 \<le> cm_scoreRef (cm_run evs'')" using cm_run_inv [of evs''] by (simp add: cm_inv_def)
  show "wm_scoreRef (snd (wm_stepTreat h t s)) =
     (if wm_bursts (snd (wm_stepTreat h t s)) = wm_bursts s then wm_scoreRef s
      else if wt_isCorrect t then wm_scoreRef s + 100
      else max 0 (wm_scoreRef s - 50))"
    by (simp add: wm_stepTreat_def Let_def)
  show "fa_scoreRef (snd (fa_stepWord h' m w s')) =
     (if fa_bursts (snd (fa_stepWord h' m w s')) = fa_bursts s' then fa_scoreRef s'
      else if fw_isCorrect w then fa_scoreRef s' + 100
      else max 0 (fa_scoreRef s' - 50))"
    by (simp add: fa_stepWord_def Let_def)
qed

section \<open>Treats that leave the viewport\<close>















section \<open>Ticks without a face\<close>





text \<open>The list without the target has at most one element less than the quiz list.\<close>

lemma filter_neq_length:
  "distinct (map g xs) \<Longrightarrow>
   length (filter (\<lambda>x. g x \<noteq> v) xs) = (if v \<in> g ` set xs then length xs - 1 else length xs)"
proof (induction xs)
  case Nil
  show ?case by simp
next
  case (Cons x xs)
  then have d: "distinct (map g xs)" and nx: "g x \<notin> g ` set xs" by simp_all
  show ?case
  proof (cases "g x = v")
    case True
    then have "v \<notin> g ` set xs" using nx by simp
    then show ?thesis using Cons.IH [OF d] True by simp
  next
    case False
    have "v \<in> g ` set xs \<Longrightarrow> 0 < length xs" by auto
    then show ?thesis using Cons.IH [OF d] False by auto
  qed
qed

lemma QUIZ_LIST_words: "map word QUIZ_LIST =
    [''Apple'', ''Banana'', ''Dog'', ''Cat'', ''Car'', ''Sun'', ''Book'', ''Ball'']"
  by (simp add: QUIZ_LIST_def)

lemma QUIZ_LIST_distinct: "distinct (map word QUIZ_LIST)"
  by (simp add: QUIZ_LIST_words)

lemma QUIZ_LIST_length: "length QUIZ_LIST = 8"
  by (simp add: QUIZ_LIST_def)


text \<open>\<open>Math.floor(u * n)\<close> for a draw \<open>0 \<le> u < 1\<close> is an index below \<open>n\<close>.\<close>

lemma floor_draw:
  assumes "0 \<le> u" "u < 1" "0 < n"
  shows "0 \<le> \<lfloor>u * real n\<rfloor> \<and> \<lfloor>u * real n\<rfloor> < int n"
proof -
  have "0 \<le> u * real n" using assms by simp
  moreover have "u * real n < real n" using assms by simp
  ultimately show ?thesis by (simp add: floor_less_iff)
qed

lemma js_index_draw:
  assumes "0 \<le> u" "u < 1" "xs \<noteq> []"
  shows "\<exists>x \<in> set xs. js_index xs \<lfloor>u * real (length xs)\<rfloor> = Some x"
proof -
  have b: "0 \<le> \<lfloor>u * real (length xs)\<rfloor> \<and> \<lfloor>u * real (length xs)\<rfloor> < int (length xs)"
    using assms by (intro floor_draw) simp_all
  then have "nat \<lfloor>u * real (length xs)\<rfloor> < length xs" by linarith
  then have "xs ! nat \<lfloor>u * real (length xs)\<rfloor> \<in> set xs" by (rule nth_mem)
  then show ?thesis using b by (simp add: js_index_def)
qed








section \<open>The advice dispatcher\<close>


lemma cm_track_frame:
  "cm_lastCaptureTime (cm_track w h face s) = cm_lastCaptureTime s \<and>
   cm_seenAiThinking (cm_track w h face s) = cm_seenAiThinking s \<and>
   cm_requests (cm_track w h face s) = cm_requests s \<and>
   cm_treats (cm_track w h face s) = cm_treats s"
  by (simp add: cm_track_def Let_def split: option.splits)



lemma wm_track_frame:
  "wm_lastCaptureTime (wm_track w h face s) = wm_lastCaptureTime s \<and>
   wm_requests (wm_track w h face s) = wm_requests s \<and>
   wm_treats (wm_track w h face s) = wm_treats s \<and>
   wm_currentQuiz (wm_track w h face s) = wm_currentQuiz s \<and>
   wm_timers (wm_track w h face s) = wm_timers s"
  by (simp add: wm_track_def Let_def split: option.splits)


text \<open>
  In the point variant a second request goes out while the first is unanswered: the
  \<open>isAiThinking\<close> that \<open>handleAiAnalysis\<close> reads stays false.
\<close>

lemma cm_second_request_in_flight:
  "cm_requests (cm_run [CmFrame ex4_cm_first, CmFrame ex4_cm_second]) = 2 \<and>
   cm_inFlight (cm_run [CmFrame ex4_cm_first, CmFrame ex4_cm_second]) = 2 \<and>
   cm_isAiThinking (cm_run [CmFrame ex4_cm_first])"
  by (simp add: cm_run_def cm_onResults_def cm_afterSpawn_def cm_track_def cm_spawnTreat_def
      cm_stepTreat_def cm_handleAiAnalysis_def ex4_cm_first_def ex4_cm_second_def cm_init_def
      or_default_def Let_def)




section \<open>Spawning words\<close>

lemma js_index_mem: "js_index xs i = Some x \<Longrightarrow> x \<in> set xs"
  by (auto simp: js_index_def split: if_splits)

lemma wm_spawnTreat_correct:
  "wd_correct d < 3 / 10 \<Longrightarrow>
   wm_spawnTreat width v d treats =
     Inr (treats @ [\<lparr> wt_id = wd_id d, wt_x = wd_x d * (width - 150) + 75, wt_y = - 50,
                      wt_type = js_index wm_types \<lfloor>wd_type d * real (length wm_types)\<rfloor>,
                      wt_word = v, wt_isCorrect = True, wt_active = True,
                      wt_velocity = 15 / 10 + wd_velocity d * 2 \<rparr>])"
  by (simp add: wm_spawnTreat_def Let_def)

lemma wm_spawnTreat_other:
  "\<not> wd_correct d < 3 / 10 \<Longrightarrow>
   wm_spawnTreat width v d treats =
     (case js_index (filter (\<lambda>q. word q \<noteq> v) QUIZ_LIST)
             \<lfloor>wd_word d * real (length (filter (\<lambda>q. word q \<noteq> v) QUIZ_LIST))\<rfloor> of
        None \<Rightarrow> Inl TypeError
      | Some q \<Rightarrow>
          Inr (treats @ [\<lparr> wt_id = wd_id d, wt_x = wd_x d * (width - 150) + 75, wt_y = - 50,
                           wt_type = js_index wm_types \<lfloor>wd_type d * real (length wm_types)\<rfloor>,
                           wt_word = word q, wt_isCorrect = False, wt_active = True,
                           wt_velocity = 15 / 10 + wd_velocity d * 2 \<rparr>]))"
  by (simp add: wm_spawnTreat_def Let_def split: option.splits)

lemma wm_spawnTreat_label:
  assumes "wm_spawnTreat width v d treats = Inr ts"
  shows "\<exists>t. ts = treats @ [t] \<and> wt_active t \<and> wt_id t = wd_id d \<and>
             wt_isCorrect t = (wt_word t = v) \<and> (wt_isCorrect t \<or> wt_word t \<in> word ` set QUIZ_LIST)"
proof (cases "wd_correct d < 3 / 10")
  case True
  have "ts = treats @ [\<lparr> wt_id = wd_id d, wt_x = wd_x d * (width - 150) + 75, wt_y = - 50,
      wt_type = js_index wm_types \<lfloor>wd_type d * real (length wm_types)\<rfloor>,
      wt_word = v, wt_isCorrect = True, wt_active = True,
      wt_velocity = 15 / 10 + wd_velocity d * 2 \<rparr>]"
    using assms unfolding wm_spawnTreat_correct [OF True] by simp
  then show ?thesis by simp
next
  case False
  let ?os = "filter (\<lambda>q. word q \<noteq> v) QUIZ_LIST"
  show ?thesis
  proof (cases "js_index ?os \<lfloor>wd_word d * real (length ?os)\<rfloor>")
    case None
    then show ?thesis using assms unfolding wm_spawnTreat_other [OF False] by simp
  next
    case (Some q)
    from js_index_mem [OF Some] have "word q \<noteq> v" "q \<in> set QUIZ_LIST" by simp_all
    moreover have "ts = treats @ [\<lparr> wt_id = wd_id d, wt_x = wd_x d * (width - 150) + 75,
        wt_y = - 50, wt_type = js_index wm_types \<lfloor>wd_type d * real (length wm_types)\<rfloor>,
        wt_word = word q, wt_isCorrect = False, wt_active = True,
        wt_velocity = 15 / 10 + wd_velocity d * 2 \<rparr>]"
      using assms Some unfolding wm_spawnTreat_other [OF False] by simp
    ultimately show ?thesis by simp
  qed
qed

lemma nth_QUIZ_LIST: "0 \<le> k \<Longrightarrow> k < 8 \<Longrightarrow> js_index QUIZ_LIST k = Some (QUIZ_LIST ! nat k)"
  by (simp add: js_index_def QUIZ_LIST_length)

lemma fa_spawnWord_correct:
  "js_index QUIZ_LIST (fa_quizIndexRef s) = Some quiz \<Longrightarrow> fd_correct d < 35 / 100 \<Longrightarrow>
   fa_spawnWord width d s =
     Inr (s\<lparr> fa_wordsRef := fa_wordsRef s @
            [\<lparr> fw_id = fd_id d, fw_x = 100 + fd_x d * (width - 200), fw_y = - 60,
               fw_word = word quiz,
               fw_emoji = map_option config_emoji
                 (js_index TREAT_TYPES \<lfloor>fd_type d * real (length TREAT_TYPES)\<rfloor>),
               fw_isCorrect = True, fw_velocity = 2 + fd_velocity d * 2 \<rparr>] \<rparr>)"
  by (simp add: fa_spawnWord_def Let_def)

lemma fa_spawnWord_other:
  "js_index QUIZ_LIST (fa_quizIndexRef s) = Some quiz \<Longrightarrow> \<not> fd_correct d < 35 / 100 \<Longrightarrow>
   fa_spawnWord width d s =
     (case js_index (filter (\<lambda>q. word q \<noteq> word quiz) QUIZ_LIST)
             \<lfloor>fd_word d * real (length QUIZ_LIST - 1)\<rfloor> of
        None \<Rightarrow> Inl TypeError
      | Some q \<Rightarrow>
          Inr (s\<lparr> fa_wordsRef := fa_wordsRef s @
                 [\<lparr> fw_id = fd_id d, fw_x = 100 + fd_x d * (width - 200), fw_y = - 60,
                    fw_word = word q,
                    fw_emoji = map_option config_emoji
                      (js_index TREAT_TYPES \<lfloor>fd_type d * real (length TREAT_TYPES)\<rfloor>),
                    fw_isCorrect = False, fw_velocity = 2 + fd_velocity d * 2 \<rparr>] \<rparr>))"
  by (simp add: fa_spawnWord_def Let_def split: option.splits)

lemma fa_spawnWord_label:
  assumes "fa_spawnWord width d s = Inr s'" "0 \<le> fa_quizIndexRef s" "fa_quizIndexRef s < 8"
  shows "\<exists>w. s' = s\<lparr> fa_wordsRef := fa_wordsRef s @ [w] \<rparr> \<and> fw_id w = fd_id d \<and>
             fw_isCorrect w = (fw_word w = word (QUIZ_LIST ! nat (fa_quizIndexRef s))) \<and>
             (fw_isCorrect w \<or> fw_word w \<in> word ` set QUIZ_LIST)"
proof (cases "fd_correct d < 35 / 100")
  case True
  define w where "w = \<lparr> fw_id = fd_id d, fw_x = 100 + fd_x d * (width - 200), fw_y = - 60,
         fw_word = word (QUIZ_LIST ! nat (fa_quizIndexRef s)),
         fw_emoji = map_option config_emoji
           (js_index TREAT_TYPES \<lfloor>fd_type d * real (length TREAT_TYPES)\<rfloor>),
         fw_isCorrect = True, fw_velocity = 2 + fd_velocity d * 2 \<rparr>"
  have "s' = s\<lparr> fa_wordsRef := fa_wordsRef s @ [w] \<rparr>"
    using assms(1) unfolding fa_spawnWord_correct [OF nth_QUIZ_LIST [OF assms(2,3)] True] w_def
    by simp
  moreover have "fw_id w = fd_id d" "fw_isCorrect w"
    "fw_word w = word (QUIZ_LIST ! nat (fa_quizIndexRef s))"
    by (simp_all add: w_def)
  ultimately show ?thesis by blast
next
  case False
  let ?v = "word (QUIZ_LIST ! nat (fa_quizIndexRef s))"
  let ?os = "filter (\<lambda>q. word q \<noteq> ?v) QUIZ_LIST"
  show ?thesis
  proof (cases "js_index ?os \<lfloor>fd_word d * real (length QUIZ_LIST - 1)\<rfloor>")
    case None
    then show ?thesis
      using assms(1) unfolding fa_spawnWord_other [OF nth_QUIZ_LIST [OF assms(2,3)] False]
      by simp
  next
    case (Some q)
    define w where "w = \<lparr> fw_id = fd_id d, fw_x = 100 + fd_x d * (width - 200), fw_y = - 60,
           fw_word = word q,
           fw_emoji = map_option config_emoji
             (js_index TREAT_TYPES \<lfloor>fd_type d * real (length TREAT_TYPES)\<rfloor>),
           fw_isCorrect = False, fw_velocity = 2 + fd_velocity d * 2 \<rparr>"
    from js_index_mem [OF Some] have q: "word q \<noteq> ?v" "q \<in> set QUIZ_LIST" by simp_all
    have "s' = s\<lparr> fa_wordsRef := fa_wordsRef s @ [w] \<rparr>"
      using assms(1) Some
      unfolding fa_spawnWord_other [OF nth_QUIZ_LIST [OF assms(2,3)] False] w_def
      by simp
    moreover have "fw_id w = fd_id d" "\<not> fw_isCorrect w" "fw_word w \<noteq> ?v"
      "fw_word w \<in> word ` set QUIZ_LIST"
      using q by (simp_all add: w_def)
    ultimately show ?thesis by blast
  qed
qed

text \<open>The filtered list of \<open>spawnWord\<close> has exactly seven entries.\<close>

lemma fa_others_length:
  assumes "0 \<le> k" "k < 8"
  shows "length (filter (\<lambda>q. word q \<noteq> word (QUIZ_LIST ! nat k)) QUIZ_LIST) = length QUIZ_LIST - 1"
proof -
  have "nat k < length QUIZ_LIST" using assms by (simp add: QUIZ_LIST_length)
  then have "word (QUIZ_LIST ! nat k) \<in> word ` set QUIZ_LIST" by simp
  then show ?thesis using filter_neq_length [OF QUIZ_LIST_distinct] by simp
qed

lemma fa_others_index:
  assumes "0 \<le> k" "k < 8" "0 \<le> u" "u < 1"
  shows "\<exists>q \<in> set QUIZ_LIST. word q \<noteq> word (QUIZ_LIST ! nat k) \<and>
           js_index (filter (\<lambda>q. word q \<noteq> word (QUIZ_LIST ! nat k)) QUIZ_LIST)
             \<lfloor>u * real (length QUIZ_LIST - 1)\<rfloor> = Some q"
proof -
  let ?os = "filter (\<lambda>q. word q \<noteq> word (QUIZ_LIST ! nat k)) QUIZ_LIST"
  have len: "length ?os = length QUIZ_LIST - 1" using assms(1,2) by (rule fa_others_length)
  then have "?os \<noteq> []" by (auto simp: QUIZ_LIST_length)
  from js_index_draw [OF assms(3,4) this] obtain q where
    "q \<in> set ?os" "js_index ?os \<lfloor>u * real (length ?os)\<rfloor> = Some q" by blast
  then show ?thesis using len by auto
qed


text \<open>The loops keep the word and the flag of every treat they keep.\<close>

lemma wm_stepTreat_label:
  "wm_stepTreat h t s = (Some t', s') \<Longrightarrow>
     wt_word t' = wt_word t \<and> wt_isCorrect t' = wt_isCorrect t \<and> wt_id t' = wt_id t"
  by (auto simp: wm_stepTreat_def Let_def split: if_splits)

lemma fa_stepWord_label:
  "fa_stepWord h m w s = (Some w', s') \<Longrightarrow>
     fw_word w' = fw_word w \<and> fw_isCorrect w' = fw_isCorrect w \<and> fw_id w' = fw_id w"
  by (auto simp: fa_stepWord_def Let_def split: if_splits)


lemma fa_wordLoop_label:
  "w' \<in> set (fst (fa_wordLoop h m ws s)) \<Longrightarrow>
     \<exists>w \<in> set ws. fw_word w' = fw_word w \<and> fw_isCorrect w' = fw_isCorrect w"
proof (induction ws arbitrary: w')
  case Nil
  then show ?case by simp
next
  case (Cons w ws)
  obtain r1 s1 where l: "fa_wordLoop h m ws s = (r1, s1)" by force
  obtain r2 s2 where st: "fa_stepWord h m w s1 = (r2, s2)" by force
  have "w' \<in> set r1 \<or> r2 = Some w'"
    using Cons.prems fa_wordLoop_Cons [OF l st] by (cases r2) auto
  then show ?case
  proof
    assume "w' \<in> set r1"
    then show ?thesis using Cons.IH [of w'] l by auto
  next
    assume "r2 = Some w'"
    then show ?thesis using fa_stepWord_label [of h m w s1 w' s2] st by auto
  qed
qed





lemma fa_afterSpawn_labelled:
  assumes "fa_labelled s"
  shows "fa_labelled (fa_afterSpawn g s)"
proof -
  obtain ws s3 where l: "fa_wordLoop (fg_height g) (fa_mouthPosRef s) (fa_wordsRef s) s = (ws, s3)"
    by force
  have q: "fa_quizIndexRef s3 = fa_quizIndexRef s" using fa_wordLoop_frame [OF l] by simp
  have "\<forall>w' \<in> set ws. fw_isCorrect w' = (fw_word w' = word (QUIZ_LIST ! nat (fa_quizIndexRef s)))"
  proof
    fix w' assume "w' \<in> set ws"
    then obtain w where "w \<in> set (fa_wordsRef s)" "fw_word w' = fw_word w"
      "fw_isCorrect w' = fw_isCorrect w"
      using fa_wordLoop_label [of w' "fg_height g" "fa_mouthPosRef s" "fa_wordsRef s" s] l by auto
    then show "fw_isCorrect w' = (fw_word w' = word (QUIZ_LIST ! nat (fa_quizIndexRef s)))"
      using assms by (simp add: fa_labelled_def)
  qed
  then show ?thesis using assms by (simp add: fa_afterSpawn_def l fa_labelled_def q)
qed

lemma fa_gameLoop_labelled:
  assumes "fa_labelled s"
  shows "fa_labelled (fst (fa_gameLoop s g))"
proof -
  define s1 where "s1 = s\<lparr> fa_lastSpawnRef := fg_now g \<rparr>"
  have l1: "fa_labelled s1" using assms by (simp add: s1_def fa_labelled_def)
  have l2: "fa_labelled s2" if "fa_spawnWord (fg_width g) (fg_draws g) s1 = Inr s2" for s2
  proof -
    have "0 \<le> fa_quizIndexRef s1" "fa_quizIndexRef s1 < 8" using l1 by (simp_all add: fa_labelled_def)
    from fa_spawnWord_label [OF that this] show ?thesis using l1 by (auto simp: fa_labelled_def)
  qed
  show ?thesis
    using assms l1 l2
    by (auto simp: fa_gameLoop_def Let_def s1_def [symmetric] fa_afterSpawn_labelled
        split: sum.splits)
qed

lemma fa_step_labelled: "fa_labelled s \<Longrightarrow> fa_labelled (fa_step s e)"
proof (cases e)
  case (FaLoop g)
  assume "fa_labelled s"
  then show ?thesis using FaLoop by (simp add: fa_gameLoop_labelled)
next
  case (FaDetect i)
  assume "fa_labelled s"
  then show ?thesis using FaDetect
    by (simp add: fa_detectFace_def fa_labelled_def Let_def split: fa_detection.splits)
next
  case FaTimer
  assume "fa_labelled s"
  then show ?thesis using FaTimer
    by (simp add: fa_advance_def fa_labelled_def QUIZ_LIST_length)
qed

lemma fa_run_labelled: "fa_labelled (fa_run evs)"
proof (induction evs rule: rev_induct)
  case Nil
  show ?case by (simp add: fa_run_def fa_init_def fa_labelled_def)
next
  case (snoc e evs)
  then show ?case by (simp add: fa_run_snoc fa_step_labelled)
qed


lemma ex5_looped:
  "fa_run [FaLoop ex5_tick] =
     fa_init\<lparr> fa_lastSpawnRef := 2000, fa_wordsRef := [ex5_fa_word\<lparr> fw_y := - 57 \<rparr>] \<rparr>"
  by (simp add: fa_run_def fa_gameLoop_def fa_afterSpawn_def fa_spawnWord_def fa_stepWord_def
      ex5_tick_def ex5_fa_draws_def ex5_fa_word_def fa_init_def Let_def js_index_def
      TREAT_TYPES_def QUIZ_LIST_def config_emoji_def)


lemma fa_run_index:
  "0 \<le> fa_quizIndexRef (fa_run evs) \<and> fa_quizIndexRef (fa_run evs) < 8"
  using fa_run_labelled [of evs] by (simp add: fa_labelled_def)

text \<open>
  C10. The eight quiz words are pairwise distinct. In every state that the face-api
  variant reaches \<open>quizIndexRef\<close> is an index of \<open>QUIZ_LIST\<close>, so the list filtered by
  \<open>word \<noteq> target\<close> has exactly \<open>QUIZ_LIST.length - 1\<close> entries, and for every draw in
  [0, 1) the index \<open>Math.floor(draw * (QUIZ_LIST.length - 1))\<close> is in bounds: the access
  yields an entry of the quiz list, other than the target.
\<close>

theorem C10_incorrect_word_index_in_bounds:
  "distinct (map word QUIZ_LIST) \<and> length QUIZ_LIST = 8 \<and>
   0 \<le> fa_quizIndexRef (fa_run evs) \<and> fa_quizIndexRef (fa_run evs) < int (length QUIZ_LIST) \<and>
   length (filter (\<lambda>q. word q \<noteq> word (QUIZ_LIST ! nat (fa_quizIndexRef (fa_run evs)))) QUIZ_LIST)
     = length QUIZ_LIST - 1 \<and>
   (0 \<le> u \<and> u < 1 \<longrightarrow>
      0 \<le> \<lfloor>u * real (length QUIZ_LIST - 1)\<rfloor> \<and>
      \<lfloor>u * real (length QUIZ_LIST - 1)\<rfloor> <
        int (length (filter (\<lambda>q. word q \<noteq> word (QUIZ_LIST ! nat (fa_quizIndexRef (fa_run evs))))
               QUIZ_LIST)) \<and>
      (\<exists>q. js_index
             (filter (\<lambda>q. word q \<noteq> word (QUIZ_LIST ! nat (fa_quizIndexRef (fa_run evs)))) QUIZ_LIST)
             \<lfloor>u * real (length QUIZ_LIST - 1)\<rfloor> = Some q \<and>
           q \<in> set QUIZ_LIST \<and> word q \<noteq> word (QUIZ_LIST ! nat (fa_quizIndexRef (fa_run evs)))))"
proof -
  let ?k = "fa_quizIndexRef (fa_run evs)"
  let ?os = "filter (\<lambda>q. word q \<noteq> word (QUIZ_LIST ! nat ?k)) QUIZ_LIST"
  have idx: "0 \<le> ?k" "?k < 8" using fa_run_index [of evs] by simp_all
  have len: "length ?os = length QUIZ_LIST - 1" using idx by (rule fa_others_length)
  have draw: "0 \<le> \<lfloor>u * real (length QUIZ_LIST - 1)\<rfloor> \<and>
      \<lfloor>u * real (length QUIZ_LIST - 1)\<rfloor> < int (length ?os) \<and>
      (\<exists>q. js_index ?os \<lfloor>u * real (length QUIZ_LIST - 1)\<rfloor> = Some q \<and>
           q \<in> set QUIZ_LIST \<and> word q \<noteq> word (QUIZ_LIST ! nat ?k))"
    if u: "0 \<le> u \<and> u < 1"
  proof -
    have "0 \<le> \<lfloor>u * real (length QUIZ_LIST - 1)\<rfloor> \<and>
        \<lfloor>u * real (length QUIZ_LIST - 1)\<rfloor> < int (length QUIZ_LIST - 1)"
      using u by (intro floor_draw) (simp_all add: QUIZ_LIST_length)
    moreover obtain q where "q \<in> set QUIZ_LIST" "word q \<noteq> word (QUIZ_LIST ! nat ?k)"
      "js_index ?os \<lfloor>u * real (length QUIZ_LIST - 1)\<rfloor> = Some q"
      using fa_others_index [OF idx, of u] u by blast
    ultimately show ?thesis using len by auto
  qed
  show ?thesis
    using QUIZ_LIST_distinct QUIZ_LIST_length idx len draw by simp
qed

theorem C10_incorrect_word_index_in_bounds_witness:
  "(0::real) \<le> 99 / 100 \<and> (99::real) / 100 < 1 \<and>
   fa_quizIndexRef (fa_run []) = 0 \<and> \<lfloor>(99::real) / 100 * real (length QUIZ_LIST - 1)\<rfloor> = 6 \<and>
   (\<exists>q. js_index (filter (\<lambda>q. word q \<noteq> word (QUIZ_LIST ! nat (fa_quizIndexRef (fa_run [])))) QUIZ_LIST)
           \<lfloor>(99::real) / 100 * real (length QUIZ_LIST - 1)\<rfloor> = Some q \<and>
         q \<in> set QUIZ_LIST \<and> word q \<noteq> word (QUIZ_LIST ! nat (fa_quizIndexRef (fa_run []))))"
proof -
  have a: "(0::real) \<le> 99 / 100 \<and> (99::real) / 100 < 1" by simp
  have b: "fa_quizIndexRef (fa_run []) = 0" by (simp add: fa_run_def fa_init_def)
  have c: "\<lfloor>(99::real) / 100 * real (length QUIZ_LIST - 1)\<rfloor> = 6"
    by (simp add: QUIZ_LIST_length floor_eq_iff)
  from C10_incorrect_word_index_in_bounds [of "[]" "99 / 100"] a
  have "\<exists>q. js_index (filter (\<lambda>q. word q \<noteq> word (QUIZ_LIST ! nat (fa_quizIndexRef (fa_run [])))) QUIZ_LIST)
           \<lfloor>(99::real) / 100 * real (length QUIZ_LIST - 1)\<rfloor> = Some q \<and>
         q \<in> set QUIZ_LIST \<and> word q \<noteq> word (QUIZ_LIST ! nat (fa_quizIndexRef (fa_run [])))"
    by blast
  then show ?thesis using a b c by blast
qed

section \<open>Identifiers\<close>

lemma cm_stepTreat_id: "cm_stepTreat h t s = (Some t', s') \<Longrightarrow> t_id t' = t_id t"
  by (auto simp: cm_stepTreat_def Let_def split: if_splits)

lemma cm_treatLoop_ids:
  "set (map t_id (fst (cm_treatLoop h ts s))) \<subseteq> set (map t_id ts) \<and>
   (distinct (map t_id ts) \<longrightarrow> distinct (map t_id (fst (cm_treatLoop h ts s))))"
proof (induction ts)
  case Nil
  show ?case by simp
next
  case (Cons t ts)
  obtain r1 s1 where l: "cm_treatLoop h ts s = (r1, s1)" by force
  obtain r2 s2 where st: "cm_stepTreat h t s1 = (r2, s2)" by force
  show ?case
  proof (cases r2)
    case None
    then show ?thesis using Cons l cm_treatLoop_Cons [OF l st] by auto
  next
    case (Some t')
    then have "t_id t' = t_id t" using st cm_stepTreat_id by blast
    then show ?thesis using Cons l Some cm_treatLoop_Cons [OF l st] by auto
  qed
qed

lemma wm_treatLoop_ids:
  "set (map wt_id (fst (wm_treatLoop h ts s))) \<subseteq> set (map wt_id ts) \<and>
   (distinct (map wt_id ts) \<longrightarrow> distinct (map wt_id (fst (wm_treatLoop h ts s))))"
proof (induction ts)
  case Nil
  show ?case by simp
next
  case (Cons t ts)
  obtain r1 s1 where l: "wm_treatLoop h ts s = (r1, s1)" by force
  obtain r2 s2 where st: "wm_stepTreat h t s1 = (r2, s2)" by force
  show ?case
  proof (cases r2)
    case None
    then show ?thesis using Cons l wm_treatLoop_Cons [OF l st] by auto
  next
    case (Some t')
    then have "wt_id t' = wt_id t" using st wm_stepTreat_label by blast
    then show ?thesis using Cons l Some wm_treatLoop_Cons [OF l st] by auto
  qed
qed

lemma fa_wordLoop_ids:
  "set (map fw_id (fst (fa_wordLoop h m ws s))) \<subseteq> set (map fw_id ws) \<and>
   (distinct (map fw_id ws) \<longrightarrow> distinct (map fw_id (fst (fa_wordLoop h m ws s))))"
proof (induction ws)
  case Nil
  show ?case by simp
next
  case (Cons w ws)
  obtain r1 s1 where l: "fa_wordLoop h m ws s = (r1, s1)" by force
  obtain r2 s2 where st: "fa_stepWord h m w s1 = (r2, s2)" by force
  show ?case
  proof (cases r2)
    case None
    then show ?thesis using Cons l fa_wordLoop_Cons [OF l st] by auto
  next
    case (Some w')
    then have "fw_id w' = fw_id w" using st fa_stepWord_label by blast
    then show ?thesis using Cons l Some fa_wordLoop_Cons [OF l st] by auto
  qed
qed

lemma cm_afterSpawn_treats:
  "cm_treats (cm_afterSpawn h now s) = fst (cm_treatLoop h (cm_treats s) s)"
proof -
  obtain ts s3 where l: "cm_treatLoop h (cm_treats s) s = (ts, s3)" by force
  show ?thesis by (simp add: cm_afterSpawn_def l Let_def cm_handleAiAnalysis_def)
qed

lemma wm_afterSpawn_treats:
  "wm_treats (wm_afterSpawn f s) = fst (wm_treatLoop (wf_height f) (wm_treats s) s)"
proof -
  obtain ts s3 where l: "wm_treatLoop (wf_height f) (wm_treats s) s = (ts, s3)" by force
  show ?thesis by (simp add: wm_afterSpawn_def l Let_def)
qed

lemma fa_afterSpawn_words:
  "fa_wordsRef (fa_afterSpawn g s) =
     fst (fa_wordLoop (fg_height g) (fa_mouthPosRef s) (fa_wordsRef s) s)"
proof -
  obtain ws s3 where l: "fa_wordLoop (fg_height g) (fa_mouthPosRef s) (fa_wordsRef s) s = (ws, s3)"
    by force
  show ?thesis by (simp add: fa_afterSpawn_def l)
qed

lemma cm_onResults_ids:
  assumes "distinct (map t_id (cm_treats s))"
    and "cf_spawn f < 2 / 100 \<longrightarrow> cd_id (cf_draws f) \<notin> t_id ` set (cm_treats s)"
  shows "distinct (map t_id (cm_treats (cm_onResults s f)))"
proof -
  define s1 where "s1 = cm_track (or_default (cf_clientWidth f) 800)
      (or_default (cf_clientHeight f) 600) (cf_face f) s"
  define s2 where "s2 = (if cf_spawn f < 2 / 100
      then s1\<lparr> cm_treats := cm_spawnTreat (or_default (cf_clientWidth f) 800) (cf_draws f)
                 (cm_treats s1) \<rparr> else s1)"
  have r: "cm_onResults s f = cm_afterSpawn (or_default (cf_clientHeight f) 600) (cf_now f) s2"
    by (simp add: cm_onResults_def Let_def s1_def s2_def)
  have k: "cm_treats s1 = cm_treats s"
    using cm_track_frame [of "or_default (cf_clientWidth f) 800"
        "or_default (cf_clientHeight f) 600" "cf_face f" s]
    by (simp add: s1_def)
  have "distinct (map t_id (cm_treats s2))"
    using assms k by (auto simp: s2_def cm_spawnTreat_def Let_def)
  then show ?thesis
    using cm_treatLoop_ids [of "or_default (cf_clientHeight f) 600" "cm_treats s2" s2]
    by (simp add: r cm_afterSpawn_treats)
qed

lemma wm_onResults_ids:
  assumes "distinct (map wt_id (wm_treats s))"
    and "wf_spawn f < 15 / 1000 \<longrightarrow> wd_id (wf_draws f) \<notin> wt_id ` set (wm_treats s)"
  shows "distinct (map wt_id (wm_treats (fst (wm_onResults s f))))"
proof -
  define s1 where "s1 = wm_track (wf_width f) (wf_height f) (wf_face f) s"
  have k: "wm_treats s1 = wm_treats s"
    using wm_track_frame [of "wf_width f" "wf_height f" "wf_face f" s] by (simp add: s1_def)
  have after: "distinct (map wt_id (wm_treats (wm_afterSpawn f s')))"
    if "distinct (map wt_id (wm_treats s'))" for s'
    using that wm_treatLoop_ids [of "wf_height f" "wm_treats s'" s']
    by (simp add: wm_afterSpawn_treats)
  show ?thesis
  proof (cases "wf_spawn f < 15 / 1000")
    case False
    then show ?thesis
      using after [of s1] assms(1) k
      by (simp add: wm_onResults_def Let_def s1_def [symmetric])
  next
    case True
    show ?thesis
    proof (cases "wm_spawnTreat (wf_width f) (word (wm_currentQuiz s1)) (wf_draws f) (wm_treats s1)")
      case (Inl e)
      then show ?thesis
        using True assms(1) k by (simp add: wm_onResults_def Let_def s1_def [symmetric])
    next
      case (Inr ts)
      from wm_spawnTreat_label [OF Inr] obtain t where
        t: "ts = wm_treats s1 @ [t]" "wt_id t = wd_id (wf_draws f)" by blast
      have "distinct (map wt_id ts)" using t assms True k by auto
      then have "distinct (map wt_id (wm_treats (wm_afterSpawn f (s1\<lparr> wm_treats := ts \<rparr>))))"
        by (intro after) simp
      then show ?thesis
        using True Inr by (simp add: wm_onResults_def Let_def s1_def [symmetric])
    qed
  qed
qed

lemma fa_spawnWord_ids:
  assumes "fa_spawnWord width d s = Inr s'"
  shows "\<exists>w. fa_wordsRef s' = fa_wordsRef s @ [w] \<and> fw_id w = fd_id d \<and>
             fa_mouthPosRef s' = fa_mouthPosRef s"
proof (cases "js_index QUIZ_LIST (fa_quizIndexRef s)")
  case None
  then show ?thesis using assms by (simp add: fa_spawnWord_def Let_def)
next
  case (Some quiz)
  show ?thesis
  proof (cases "fd_correct d < 35 / 100")
    case True
    show ?thesis using assms unfolding fa_spawnWord_correct [OF Some True] by auto
  next
    case False
    show ?thesis
      using assms unfolding fa_spawnWord_other [OF Some False]
      by (auto split: option.splits)
  qed
qed

lemma fa_gameLoop_ids:
  assumes "distinct (map fw_id (fa_wordsRef s))"
    and "fg_now g - fa_lastSpawnRef s > 1500 \<longrightarrow> fd_id (fg_draws g) \<notin> fw_id ` set (fa_wordsRef s)"
  shows "distinct (map fw_id (fa_wordsRef (fst (fa_gameLoop s g))))"
proof -
  define s1 where "s1 = s\<lparr> fa_lastSpawnRef := fg_now g \<rparr>"
  have k: "fa_wordsRef s1 = fa_wordsRef s" by (simp add: s1_def)
  have after: "distinct (map fw_id (fa_wordsRef (fa_afterSpawn g s')))"
    if "distinct (map fw_id (fa_wordsRef s'))" for s'
    using that fa_wordLoop_ids [of "fg_height g" "fa_mouthPosRef s'" "fa_wordsRef s'" s']
    by (simp add: fa_afterSpawn_words)
  show ?thesis
  proof (cases "fa_runningRef s \<and> fg_now g - fa_lastSpawnRef s > 1500")
    case False
    then show ?thesis using after [of s] assms(1) by (auto simp: fa_gameLoop_def)
  next
    case True
    show ?thesis
    proof (cases "fa_spawnWord (fg_width g) (fg_draws g) s1")
      case (Inl e)
      then show ?thesis
        using True assms(1) k by (simp add: fa_gameLoop_def Let_def s1_def [symmetric])
    next
      case (Inr s2)
      from fa_spawnWord_ids [OF Inr] obtain w where
        w: "fa_wordsRef s2 = fa_wordsRef s1 @ [w]" "fw_id w = fd_id (fg_draws g)" by blast
      have "distinct (map fw_id (fa_wordsRef s2))" using w assms True k by auto
      then have "distinct (map fw_id (fa_wordsRef (fa_afterSpawn g s2)))" by (rule after)
      then show ?thesis
        using True Inr by (simp add: fa_gameLoop_def Let_def s1_def [symmetric])
    qed
  qed
qed

text \<open>
  C8, as stated, fails: the identifier is the text of a random draw and nothing compares
  it with the identifiers in the store. Two frames of the MediaPipe word variant that
  spawn with the same draw leave two active treats with the same identifier.
\<close>

theorem C8_counterexample:
  "map wt_id (wm_treats (wm_run [WmFrame ex3_lost, WmFrame ex3_lost])) =
     [''x7k2m9p4q'', ''x7k2m9p4q''] \<and>
   map wt_active (wm_treats (wm_run [WmFrame ex3_lost, WmFrame ex3_lost])) = [True, True] \<and>
   \<not> distinct (map wt_id (wm_treats (wm_run [WmFrame ex3_lost, WmFrame ex3_lost])))"
  by (simp add: wm_run_def wm_onResults_def wm_track_def wm_afterSpawn_def wm_spawnTreat_def
      wm_stepTreat_def ex3_lost_def wm_init_def Let_def js_index_def wm_types_def QUIZ_LIST_def)

text \<open>
  C8, amended. The initial store is empty. Every event keeps the identifiers in the store
  pairwise distinct provided that they were so before and that the identifier drawn by a
  spawn of that event, if there is one, is not already in the store; pruning, splicing
  and consumption only remove treats or change their position and flag, never the
  identifier.
\<close>

theorem C8_identifiers_stay_unique:
  "cm_treats cm_init = [] \<and> wm_treats wm_init = [] \<and> fa_wordsRef fa_init = [] \<and>
   (distinct (map t_id (cm_treats s)) \<and>
    (\<forall>f. e = CmFrame f \<and> cf_spawn f < 2 / 100 \<longrightarrow> cd_id (cf_draws f) \<notin> t_id ` set (cm_treats s))
      \<longrightarrow> distinct (map t_id (cm_treats (cm_step s e)))) \<and>
   (distinct (map wt_id (wm_treats s')) \<and>
    (\<forall>f. e' = WmFrame f \<and> wf_spawn f < 15 / 1000 \<longrightarrow>
         wd_id (wf_draws f) \<notin> wt_id ` set (wm_treats s'))
      \<longrightarrow> distinct (map wt_id (wm_treats (wm_step s' e')))) \<and>
   (distinct (map fw_id (fa_wordsRef s'')) \<and>
    (\<forall>g. e'' = FaLoop g \<and> fg_now g - fa_lastSpawnRef s'' > 1500 \<longrightarrow>
         fd_id (fg_draws g) \<notin> fw_id ` set (fa_wordsRef s''))
      \<longrightarrow> distinct (map fw_id (fa_wordsRef (fa_step s'' e''))))"
proof (intro conjI impI)
  show "cm_treats cm_init = []" "wm_treats wm_init = []" "fa_wordsRef fa_init = []"
    by (simp_all add: cm_init_def wm_init_def fa_init_def)
next
  assume a: "distinct (map t_id (cm_treats s)) \<and>
    (\<forall>f. e = CmFrame f \<and> cf_spawn f < 2 / 100 \<longrightarrow> cd_id (cf_draws f) \<notin> t_id ` set (cm_treats s))"
  show "distinct (map t_id (cm_treats (cm_step s e)))"
  proof (cases e)
    case (CmFrame f)
    then show ?thesis using a cm_onResults_ids [of s f] by simp
  next
    case CmAdvice
    then show ?thesis using a by (simp add: cm_adviceDone_def)
  qed
next
  assume a: "distinct (map wt_id (wm_treats s')) \<and>
    (\<forall>f. e' = WmFrame f \<and> wf_spawn f < 15 / 1000 \<longrightarrow>
         wd_id (wf_draws f) \<notin> wt_id ` set (wm_treats s'))"
  show "distinct (map wt_id (wm_treats (wm_step s' e')))"
  proof (cases e')
    case (WmFrame f)
    then show ?thesis using a wm_onResults_ids [of s' f] by simp
  next
    case WmTimer
    then show ?thesis using a by (simp add: wm_nextQuiz_def Let_def split: list.splits)
  next
    case WmAdvice
    then show ?thesis using a by (simp add: wm_adviceDone_def)
  qed
next
  assume a: "distinct (map fw_id (fa_wordsRef s'')) \<and>
    (\<forall>g. e'' = FaLoop g \<and> fg_now g - fa_lastSpawnRef s'' > 1500 \<longrightarrow>
         fd_id (fg_draws g) \<notin> fw_id ` set (fa_wordsRef s''))"
  show "distinct (map fw_id (fa_wordsRef (fa_step s'' e'')))"
  proof (cases e'')
    case (FaLoop g)
    then show ?thesis using a fa_gameLoop_ids [of s'' g] by simp
  next
    case (FaDetect i)
    then show ?thesis
      using a by (simp add: fa_detectFace_def Let_def split: fa_detection.splits)
  next
    case FaTimer
    then show ?thesis using a by (simp add: fa_advance_def)
  qed
qed

theorem C8_identifiers_stay_unique_witness:
  "distinct (map wt_id (wm_treats (wm_run [WmFrame ex3_lost]))) \<and>
   wf_spawn ex8_fresh < 15 / 1000 \<and>
   wd_id (wf_draws ex8_fresh) \<notin> wt_id ` set (wm_treats (wm_run [WmFrame ex3_lost])) \<and>
   length (wm_treats (wm_step (wm_run [WmFrame ex3_lost]) (WmFrame ex8_fresh))) = 2 \<and>
   distinct (map wt_id (wm_treats (wm_step (wm_run [WmFrame ex3_lost]) (WmFrame ex8_fresh)))) \<and>
   distinct (map t_id (cm_treats (cm_run [CmFrame ex4_cm_first]))) \<and>
   cf_spawn ex8_cm_fresh < 2 / 100 \<and>
   cd_id (cf_draws ex8_cm_fresh) \<notin> t_id ` set (cm_treats (cm_run [CmFrame ex4_cm_first])) \<and>
   length (cm_treats (cm_step (cm_run [CmFrame ex4_cm_first]) (CmFrame ex8_cm_fresh))) = 2 \<and>
   distinct (map t_id (cm_treats (cm_step (cm_run [CmFrame ex4_cm_first]) (CmFrame ex8_cm_fresh)))) \<and>
   distinct (map fw_id (fa_wordsRef (fa_run [FaLoop ex5_tick]))) \<and>
   fg_now ex8_fa_fresh - fa_lastSpawnRef (fa_run [FaLoop ex5_tick]) > 1500 \<and>
   fd_id (fg_draws ex8_fa_fresh) \<notin> fw_id ` set (fa_wordsRef (fa_run [FaLoop ex5_tick])) \<and>
   length (fa_wordsRef (fa_step (fa_run [FaLoop ex5_tick]) (FaLoop ex8_fa_fresh))) = 2 \<and>
   distinct (map fw_id (fa_wordsRef (fa_step (fa_run [FaLoop ex5_tick]) (FaLoop ex8_fa_fresh))))"
proof -
  have w1: "wm_treats (wm_run [WmFrame ex3_lost]) =
      [\<lparr> wt_id = ''x7k2m9p4q'', wt_x = 100, wt_y = - 48, wt_type = Some cupcake,
         wt_word = ''Apple'', wt_isCorrect = True, wt_active = True, wt_velocity = 2 \<rparr>]"
    by (simp add: wm_run_def wm_onResults_def wm_track_def wm_afterSpawn_def wm_spawnTreat_def
        wm_stepTreat_def ex3_lost_def wm_init_def Let_def js_index_def wm_types_def
        QUIZ_LIST_def)
  have w2: "length (wm_treats (wm_step (wm_run [WmFrame ex3_lost]) (WmFrame ex8_fresh))) = 2"
    by (simp add: wm_run_def wm_onResults_def wm_track_def wm_afterSpawn_def wm_spawnTreat_def
        wm_stepTreat_def ex3_lost_def ex8_fresh_def wm_init_def Let_def js_index_def wm_types_def
        QUIZ_LIST_def)
  have w3: "distinct (map wt_id (wm_treats (wm_run [WmFrame ex3_lost])))" by (simp add: w1)
  have w4: "wf_spawn ex8_fresh < 15 / 1000" by (simp add: ex8_fresh_def ex3_lost_def)
  have w5: "wd_id (wf_draws ex8_fresh) \<notin> wt_id ` set (wm_treats (wm_run [WmFrame ex3_lost]))"
    by (simp add: w1) (simp add: ex8_fresh_def ex3_lost_def)
  have c1: "cm_run [CmFrame ex4_cm_first] =
      cm_init\<lparr> cm_treats := [ex4_cm_spawned], cm_lastCaptureTime := 6000,
               cm_isAiThinking := True, cm_requests := 1, cm_inFlight := 1 \<rparr>"
    by (simp add: cm_run_def cm_onResults_def cm_afterSpawn_def cm_track_def cm_spawnTreat_def
        cm_stepTreat_def cm_handleAiAnalysis_def ex4_cm_first_def ex4_cm_spawned_def cm_init_def
        or_default_def Let_def cm_selectType_def cm_types_def cm_weights_def
        cm_config_points_def config_emoji_def)
  have c2: "length (cm_treats (cm_step (cm_run [CmFrame ex4_cm_first]) (CmFrame ex8_cm_fresh))) = 2"
    by (simp add: c1)
      (simp add: cm_onResults_def cm_afterSpawn_def cm_track_def cm_spawnTreat_def
        cm_stepTreat_def cm_handleAiAnalysis_def ex8_cm_fresh_def ex4_cm_first_def
        ex4_cm_spawned_def cm_init_def or_default_def Let_def)
  have c3: "distinct (map t_id (cm_treats (cm_run [CmFrame ex4_cm_first])))" by (simp add: c1)
  have c4: "cf_spawn ex8_cm_fresh < 2 / 100" by (simp add: ex8_cm_fresh_def ex4_cm_first_def)
  have c5: "cd_id (cf_draws ex8_cm_fresh) \<notin> t_id ` set (cm_treats (cm_run [CmFrame ex4_cm_first]))"
    by (simp add: c1) (simp add: ex8_cm_fresh_def ex4_cm_first_def ex4_cm_spawned_def)
  have f2: "length (fa_wordsRef (fa_step (fa_run [FaLoop ex5_tick]) (FaLoop ex8_fa_fresh))) = 2"
    by (simp add: ex5_looped)
      (simp add: fa_gameLoop_def fa_afterSpawn_def fa_spawnWord_def fa_stepWord_def
        ex8_fa_fresh_def ex5_tick_def ex5_fa_draws_def ex5_fa_word_def fa_init_def Let_def
        js_index_def TREAT_TYPES_def QUIZ_LIST_def)
  have f3: "distinct (map fw_id (fa_wordsRef (fa_run [FaLoop ex5_tick])))"
    by (simp add: ex5_looped)
  have f4: "fg_now ex8_fa_fresh - fa_lastSpawnRef (fa_run [FaLoop ex5_tick]) > 1500"
    by (simp add: ex5_looped) (simp add: ex8_fa_fresh_def ex5_tick_def)
  have f5: "fd_id (fg_draws ex8_fa_fresh) \<notin> fw_id ` set (fa_wordsRef (fa_run [FaLoop ex5_tick]))"
    by (simp add: ex5_looped) (simp add: ex8_fa_fresh_def ex5_tick_def ex5_fa_word_def)
  from C8_identifiers_stay_unique [of "cm_run [CmFrame ex4_cm_first]" "CmFrame ex8_cm_fresh"
      "wm_run [WmFrame ex3_lost]" "WmFrame ex8_fresh" "fa_run [FaLoop ex5_tick]"
      "FaLoop ex8_fa_fresh"] w3 w5 c3 c5 f3 f5
  have "distinct (map wt_id (wm_treats (wm_step (wm_run [WmFrame ex3_lost]) (WmFrame ex8_fresh))))"
    "distinct (map t_id (cm_treats (cm_step (cm_run [CmFrame ex4_cm_first]) (CmFrame ex8_cm_fresh))))"
    "distinct (map fw_id (fa_wordsRef (fa_step (fa_run [FaLoop ex5_tick]) (FaLoop ex8_fa_fresh))))"
    by simp_all
  then show ?thesis using w2 w3 w4 w5 c2 c3 c4 c5 f2 f3 f4 f5 by blast
qed

section \<open>Advancing the quiz\<close>











text \<open>\<open>indexOf\<close> finds an entry of a list without repetitions where it is.\<close>

lemma indexOf_absent: "v \<notin> set xs \<Longrightarrow> indexOf xs v = - 1"
  by (induction xs) auto


lemma QUIZ_LIST_distinct_entries: "distinct QUIZ_LIST"
  using QUIZ_LIST_distinct by (rule distinct_map [THEN iffD1, THEN conjunct1])


lemma QUIZ_LIST_nth_inj: "i < 8 \<Longrightarrow> j < 8 \<Longrightarrow> QUIZ_LIST ! i = QUIZ_LIST ! j \<Longrightarrow> i = j"
  using QUIZ_LIST_distinct_entries by (simp add: nth_eq_iff_index_eq QUIZ_LIST_length)









end
